theory Spec2Isabelle
  imports Main
begin

section \<open>Values of the host language\<close>

text \<open>
  The plugin treats the search view's state as an opaque value (\<open>any\<close> in the source).
  It is modelled as a JSON value; an object keeps its properties in own-property order,
  since the source compares states through their serialisation. The source's
  \<open>undefined\<close> and \<open>null\<close> are both \<open>JNull\<close>: the source only ever tests them with
  \<open>!x\<close>, \<open>x || d\<close>, \<open>x ?? d\<close> and \<open>x?.f\<close>, which do not tell them apart.
\<close>

datatype jsval =
    JNull
  | JBool bool
  | JNum int
  | JStr string
  | JArr "jsval list"
  | JObj "(string \<times> jsval) list"

text \<open>Truthiness, as used by \<open>!state\<close>, \<open>if (x)\<close> and \<open>x || d\<close>.\<close>

fun truthy :: "jsval \<Rightarrow> bool" where
  "truthy JNull = False"
| "truthy (JBool b) = b"
| "truthy (JNum n) = (n \<noteq> 0)"
| "truthy (JStr s) = (s \<noteq> [])"
| "truthy (JArr xs) = True"
| "truthy (JObj kvs) = True"

text \<open>\<open>typeof v === "object"\<close>.\<close>

fun typeof_object :: "jsval \<Rightarrow> bool" where
  "typeof_object JNull = True"
| "typeof_object (JArr xs) = True"
| "typeof_object (JObj kvs) = True"
| "typeof_object v = False"

text \<open>Decimal property keys of array elements and string characters.\<close>

definition digitChar :: "nat \<Rightarrow> char" where
  "digitChar d = char_of (48 + d)"

fun decimal :: "nat \<Rightarrow> string" where
  "decimal n =
     (if 10 \<le> n then decimal (n div 10) @ [digitChar (n mod 10)] else [digitChar n])"

text \<open>
  The own enumerable properties of a value, in property order: what a rest pattern
  \<open>{ query, ...rest }\<close> and a spread \<open>{ ...v }\<close> copy.
\<close>

fun ownEntries :: "jsval \<Rightarrow> (string \<times> jsval) list" where
  "ownEntries (JObj kvs) = kvs"
| "ownEntries (JArr xs) = zip (map decimal [0..<length xs]) xs"
| "ownEntries (JStr s) = zip (map decimal [0..<length s]) (map (\<lambda>c. JStr [c]) s)"
| "ownEntries v = []"

text \<open>Property read \<open>v?.k\<close>; an absent property reads as \<open>JNull\<close>.\<close>

definition getProp :: "jsval \<Rightarrow> string \<Rightarrow> jsval" where
  "getProp v k = (case map_of (ownEntries v) k of None \<Rightarrow> JNull | Some x \<Rightarrow> x)"

text \<open>The rest of a destructuring pattern: every own property but the named one.\<close>

primrec restWithout :: "string \<Rightarrow> (string \<times> jsval) list \<Rightarrow> (string \<times> jsval) list" where
  "restWithout k [] = []"
| "restWithout k (kv # kvs) =
     (if fst kv = k then restWithout k kvs else kv # restWithout k kvs)"

section \<open>State sanitizer\<close>

text \<open>
  \<^verbatim>\<open>
  private sanitizeSearchStateForPersistence(state: any): any {
    if (!state || typeof state !== "object") return state;
    if (this.settings.rememberQuery) return state;
    const { query, ...rest } = state;
    return rest;
  }
  \<close>
  The setting \<open>rememberQuery\<close> is read by truthiness and passed as a boolean.
\<close>

definition sanitizeSearchStateForPersistence :: "bool \<Rightarrow> jsval \<Rightarrow> jsval" where
  "sanitizeSearchStateForPersistence rememberQuery state =
     (if \<not> truthy state \<or> \<not> typeof_object state then state
      else if rememberQuery then state
      else JObj (restWithout ''query'' (ownEntries state)))"

section \<open>Serialisation and string conversion\<close>

text \<open>
  \<open>JSON.stringify\<close> on JSON values: numbers are integers, and in string literals the
  quote and the backslash are escaped. The plugin only compares the resulting strings
  with each other and tests them for emptiness.
\<close>

definition stringOfInt :: "int \<Rightarrow> string" where
  "stringOfInt i = (if 0 \<le> i then decimal (nat i) else CHR ''-'' # decimal (nat (- i)))"

definition quoteString :: "string \<Rightarrow> string" where
  "quoteString s =
     [CHR 0x22] @
     concat (map (\<lambda>c. if c = CHR 0x22 \<or> c = CHR 0x5C then [CHR 0x5C, c] else [c]) s) @
     [CHR 0x22]"

fun commaJoin :: "string list \<Rightarrow> string" where
  "commaJoin [] = []"
| "commaJoin [s] = s"
| "commaJoin (s # t # ss) = s @ '','' @ commaJoin (t # ss)"

primrec JSON_stringify :: "jsval \<Rightarrow> string" where
  "JSON_stringify JNull = ''null''"
| "JSON_stringify (JBool b) = (if b then ''true'' else ''false'')"
| "JSON_stringify (JNum n) = stringOfInt n"
| "JSON_stringify (JStr s) = quoteString s"
| "JSON_stringify (JArr xs) = ''['' @ commaJoin (map JSON_stringify xs) @ '']''"
| "JSON_stringify (JObj kvs) =
     ''{'' @ commaJoin (map (\<lambda>(k, s). quoteString k @ '':'' @ s)
                          (map (map_prod id JSON_stringify) kvs)) @ ''}''"

text \<open>\<open>String(v)\<close>; array elements that are \<open>null\<close> print as the empty string.\<close>

primrec jsString :: "jsval \<Rightarrow> string" where
  "jsString JNull = ''null''"
| "jsString (JBool b) = (if b then ''true'' else ''false'')"
| "jsString (JNum n) = stringOfInt n"
| "jsString (JStr s) = s"
| "jsString (JArr xs) =
     commaJoin (map (\<lambda>(x, s). if x = JNull then [] else s) (zip xs (map jsString xs)))"
| "jsString (JObj kvs) = ''[object Object]''"

text \<open>
  Property write \<open>o.k = v\<close> on the entries of an object: an existing property keeps its
  place, a new one goes last.
\<close>

primrec setEntry :: "string \<Rightarrow> jsval \<Rightarrow> (string \<times> jsval) list \<Rightarrow> (string \<times> jsval) list" where
  "setEntry k v [] = [(k, v)]"
| "setEntry k v (e # es) = (if fst e = k then (k, v) # es else e # setEntry k v es)"

text \<open>
  \<open>finalState.query = query\<close> inside a class body (strict mode): on an object it writes
  the property, on an array it adds a non-index property that no serialisation shows,
  on a primitive it throws a TypeError (\<open>None\<close>).
\<close>

fun assignProp :: "jsval \<Rightarrow> string \<Rightarrow> jsval \<Rightarrow> jsval option" where
  "assignProp (JObj kvs) k v = Some (JObj (setEntry k v kvs))"
| "assignProp (JArr xs) k v = Some (JArr xs)"
| "assignProp w k v = None"

text \<open>\<open>Object.assign(target, source)\<close> on entries.\<close>

definition objectAssign ::
  "(string \<times> jsval) list \<Rightarrow> (string \<times> jsval) list \<Rightarrow> (string \<times> jsval) list" where
  "objectAssign target source = foldl (\<lambda>acc kv. setEntry (fst kv) (snd kv) acc) target source"

section \<open>Settings and their persistence\<close>

text \<open>
  The interface \<open>SearchPinnedRememberSettings\<close> of the extended variant and its
  defaults. \<open>lastSearchState: any | null\<close> is a JSON value, \<open>JNull\<close> when nothing is
  remembered.
\<close>

record pluginSettings =
  lastSearchState :: jsval
  rememberQuery :: bool
  openBookmarksInMainArea :: bool
  clearSidebarSearchOnStartup :: bool
  debugMode :: bool
  autoPinSearchTab :: bool

definition DEFAULT_SETTINGS :: pluginSettings where
  "DEFAULT_SETTINGS =
     \<lparr> lastSearchState = JNull,
       rememberQuery = False,
       openBookmarksInMainArea = True,
       clearSidebarSearchOnStartup = False,
       debugMode = False,
       autoPinSearchTab = True \<rparr>"

text \<open>
  The settings record as the JSON object that \<open>saveData\<close> receives, and the record read
  back from a JSON object. A flag is read by truthiness, which is how every use in the
  plugin reads it; properties the interface does not name are not kept.
\<close>

definition settingsObject :: "pluginSettings \<Rightarrow> (string \<times> jsval) list" where
  "settingsObject s =
     [(''lastSearchState'', lastSearchState s),
      (''rememberQuery'', JBool (rememberQuery s)),
      (''openBookmarksInMainArea'', JBool (openBookmarksInMainArea s)),
      (''clearSidebarSearchOnStartup'', JBool (clearSidebarSearchOnStartup s)),
      (''debugMode'', JBool (debugMode s)),
      (''autoPinSearchTab'', JBool (autoPinSearchTab s))]"

definition settingsOfObject :: "(string \<times> jsval) list \<Rightarrow> pluginSettings" where
  "settingsOfObject kvs =
     \<lparr> lastSearchState = getProp (JObj kvs) ''lastSearchState'',
       rememberQuery = truthy (getProp (JObj kvs) ''rememberQuery''),
       openBookmarksInMainArea = truthy (getProp (JObj kvs) ''openBookmarksInMainArea''),
       clearSidebarSearchOnStartup = truthy (getProp (JObj kvs) ''clearSidebarSearchOnStartup''),
       debugMode = truthy (getProp (JObj kvs) ''debugMode''),
       autoPinSearchTab = truthy (getProp (JObj kvs) ''autoPinSearchTab'') \<rparr>"

text \<open>
  \<open>Object.assign({}, DEFAULT_SETTINGS, data)\<close>, where \<open>data\<close> is what \<open>loadData\<close>
  returned: \<open>None\<close> (\<open>null\<close>, skipped by \<open>Object.assign\<close>) when nothing was ever saved.
\<close>

definition mergeSettings :: "(string \<times> jsval) list option \<Rightarrow> (string \<times> jsval) list" where
  "mergeSettings data =
     objectAssign (objectAssign [] (settingsObject DEFAULT_SETTINGS))
       (case data of None \<Rightarrow> [] | Some d \<Rightarrow> d)"

section \<open>The plugin instance and the host around it\<close>

type_synonym leaf = nat

text \<open>What \<open>leaf.getViewState()\<close> returns and \<open>leaf.setViewState\<close> accepts.\<close>

record viewState =
  vs_type :: string
  vs_active :: bool
  vs_state :: jsval

text \<open>
  Host calls that may throw (the field \<open>throwing\<close> below says which do at the moment).
  Hiding a container and focusing an input are guarded in the source and change nothing
  the plugin reads; reading the leaves of a type, a view type or a parent is taken to
  succeed.
\<close>

datatype hostcall =
    CallGetViewState
  | CallGetLeaf
  | CallSetViewState
  | CallSetPinned
  | CallRevealLeaf
  | CallDetach
  | CallSaveData

text \<open>
  The calls that reach the host, in the order they are made; a call is recorded when it
  is made, whether or not it then throws.
\<close>

datatype event =
    HideContainer leaf
  | GetLeafTab
  | SetViewState leaf viewState
  | SetPinned leaf
  | RevealLeaf leaf
  | FocusInput leaf
  | Detach leaf
  | SaveData
  | SetInterval nat leaf
  | ClearInterval nat

text \<open>
  Callbacks handed to \<open>setTimeout\<close>, the rest of \<open>createSearchTabInMainArea\<close> after its
  \<open>await\<close>, and the callback handed to \<open>onLayoutReady\<close>.
\<close>

datatype task =
    RedirectionPass
  | DetachLeaf leaf
  | ReapplyViewState leaf viewState
  | FocusSearchInput leaf
  | FinishCreate leaf
  | StartupCleanup

text \<open>The two functions the plugin replaces on host objects.\<close>

datatype dispatcher = HostExecuteCommand | HookedExecuteCommand

datatype setter = HostSetViewState | HookedSetViewState

text \<open>
  One record holds the fields of the plugin instance (under the source's names) and the
  part of the host that the plugin reads and writes: the clock (\<open>Date.now()\<close>), the
  leaves in document order, the parent pointers of the workspace items, the root split,
  the active leaf, every leaf's view state and \<open>setViewState\<close> function, the command
  dispatcher, the interval timers of \<open>window\<close>, the pending callbacks, and the stored
  \<open>data.json\<close>. The weak collections of the source are a set and maps keyed by leaf.
  A leaf's view type is the type of its view state. The host changes its own part
  between the plugin's steps as it likes; a step of the plugin runs to its end before
  the next one starts.
\<close>

record world =
  settings :: pluginSettings
  processedLeaves :: "leaf set"
  leafCreationTime :: "leaf \<rightharpoonup> int"
  leafWatchIntervals :: "leaf \<rightharpoonup> nat"
  leafBaselineState :: "leaf \<rightharpoonup> string"
  allIntervalIds :: "nat list"
  detectionIntervalId :: "nat option"
  originalExecuteCommand :: "dispatcher option"
  isInitialLoad :: bool
  initializationCompleteTime :: int
  lastRedirectionTriggerTime :: int
  leafLocationCache :: "leaf \<rightharpoonup> bool"
  layoutMonitorRegistered :: bool
  pluginLoaded :: bool
  clock :: int
  workspaceLeaves :: "leaf list"
  parentOf :: "nat \<rightharpoonup> nat"
  rootSplit :: nat
  activeLeaf :: "leaf option"
  viewStateOf :: "leaf \<Rightarrow> viewState"
  setViewStateOf :: "leaf \<Rightarrow> setter"
  viewStateMonitored :: "leaf set"
  freshLeaf :: leaf
  commandsApi :: bool
  executeCommand :: dispatcher
  windowIntervals :: "(nat \<times> leaf) list"
  nextTimerId :: nat
  pendingTasks :: "(int \<times> task) list"
  dataFile :: "(string \<times> jsval) list option"
  throwing :: "hostcall set"
  trace :: "event list"

text \<open>\<open>loadSettings\<close> and \<open>saveSettings\<close>; the latter reports whether \<open>saveData\<close> threw.\<close>

definition loadSettings :: "world \<Rightarrow> world" where
  "loadSettings st = st\<lparr>settings := settingsOfObject (mergeSettings (dataFile st))\<rparr>"

definition saveSettings :: "world \<Rightarrow> bool \<times> world" where
  "saveSettings st =
     (let st1 = st\<lparr>trace := trace st @ [SaveData]\<rparr>
      in if CallSaveData \<in> throwing st then (False, st1)
         else (True, st1\<lparr>dataFile := Some (settingsObject (settings st))\<rparr>))"

section \<open>Leaf location classifier\<close>

text \<open>
  \<^verbatim>\<open>
  let parent = leaf.parent;
  let depth = 0;
  while (parent && depth < 10) {
    if (parent === this.app.workspace.rootSplit) { cache true; return true; }
    parent = parent.parent;
    depth++;
  }
  cache false; return false;
  \<close>
  \<open>walkParents par root parent depth\<close> is the loop from the state \<open>(parent, depth)\<close>;
  it yields the answer and the value of \<open>depth\<close> when the loop is left.
\<close>

function walkParents :: "(nat \<rightharpoonup> nat) \<Rightarrow> nat \<Rightarrow> nat option \<Rightarrow> nat \<Rightarrow> bool \<times> nat" where
  "walkParents par root parent depth =
     (case parent of
        None \<Rightarrow> (False, depth)
      | Some p \<Rightarrow>
          if depth < 10
          then (if p = root then (True, depth) else walkParents par root (par p) (depth + 1))
          else (False, depth))"
  by pat_completeness auto
termination
  by (relation "measure (\<lambda>(par, root, parent, depth). 10 - depth)") auto

text \<open>\<open>isInMainArea\<close>: the cached answer if there is one, else the walk, whose result is cached.\<close>

definition isInMainArea :: "world \<Rightarrow> leaf \<Rightarrow> bool \<times> world" where
  "isInMainArea st leaf =
     (case leafLocationCache st leaf of
        Some cachedResult \<Rightarrow> (cachedResult, st)
      | None \<Rightarrow>
          (let r = fst (walkParents (parentOf st) (rootSplit st) (parentOf st leaf) 0)
           in (r, st\<lparr>leafLocationCache := (leafLocationCache st)(leaf \<mapsto> r)\<rparr>)))"

text \<open>
  The specification's reading of the walk: the root split is among the first ten
  ancestors of the leaf. \<open>nthAncestor par (par leaf) k\<close> is the ancestor \<open>k + 1\<close> levels up.
\<close>

fun nthAncestor :: "(nat \<rightharpoonup> nat) \<Rightarrow> nat option \<Rightarrow> nat \<Rightarrow> nat option" where
  "nthAncestor par parent 0 = parent"
| "nthAncestor par parent (Suc k) =
     (case parent of None \<Rightarrow> None | Some p \<Rightarrow> nthAncestor par (par p) k)"

definition rootWithinBound :: "(nat \<rightharpoonup> nat) \<Rightarrow> nat \<Rightarrow> leaf \<Rightarrow> bool" where
  "rootWithinBound par root leaf =
     list_ex (\<lambda>k. nthAncestor par (par leaf) k = Some root) [0..<10]"

definition clearLocationCache :: "world \<Rightarrow> world" where
  "clearLocationCache st = st\<lparr>leafLocationCache := Map.empty\<rparr>"

text \<open>\<open>leaves.filter(leaf => !this.isInMainArea(leaf))\<close>, the cache filling as it goes.\<close>

fun sidebarLeaves :: "world \<Rightarrow> leaf list \<Rightarrow> leaf list \<times> world" where
  "sidebarLeaves st [] = ([], st)"
| "sidebarLeaves st (l # ls) =
     (let (m, st1) = isInMainArea st l;
          (rest, st2) = sidebarLeaves st1 ls
      in (if m then rest else l # rest, st2))"

definition getLeavesOfType :: "world \<Rightarrow> string \<Rightarrow> leaf list" where
  "getLeavesOfType st ty = filter (\<lambda>l. vs_type (viewStateOf st l) = ty) (workspaceLeaves st)"

section \<open>Grace period and duplicate suppression\<close>

definition isInInitializationGracePeriod :: "world \<Rightarrow> bool" where
  "isInInitializationGracePeriod st =
     (if isInitialLoad st then True
      else clock st - initializationCompleteTime st < 2000)"

definition shouldPreventDuplicateRedirection :: "world \<Rightarrow> bool" where
  "shouldPreventDuplicateRedirection st = (clock st - lastRedirectionTriggerTime st < 500)"

text \<open>\<open>triggerRedirection\<close>: the pass is handed to \<open>setTimeout(..., 10)\<close>.\<close>

definition triggerRedirection :: "world \<Rightarrow> world" where
  "triggerRedirection st =
     (if shouldPreventDuplicateRedirection st then st
      else st\<lparr>lastRedirectionTriggerTime := clock st,
              pendingTasks := pendingTasks st @ [(clock st + 10, RedirectionPass)]\<rparr>)"

section \<open>Redirection engine\<close>

text \<open>The host's own \<open>setViewState\<close>; it reports whether the call succeeded.\<close>

definition originalSetViewState :: "world \<Rightarrow> leaf \<Rightarrow> viewState \<Rightarrow> bool \<times> world" where
  "originalSetViewState st leaf vs =
     (let st1 = st\<lparr>trace := trace st @ [SetViewState leaf vs]\<rparr>
      in if CallSetViewState \<in> throwing st then (False, st1)
         else (True, st1\<lparr>viewStateOf := (viewStateOf st)(leaf := vs)\<rparr>))"

text \<open>
  \<open>createSearchTabInMainArea(query, searchState)\<close>, up to its \<open>await\<close>: the new tab is
  requested with \<open>getLeaf("tab")\<close> (the host puts it under the root split) and its view
  state is set. A new leaf carries the host's \<open>setViewState\<close>. What follows the
  \<open>await\<close> (pin, reveal, focus) is queued as \<open>FinishCreate\<close>. Every throw ends the
  function in its \<open>catch\<close>.
\<close>

definition emptyViewState :: viewState where
  "emptyViewState = \<lparr> vs_type = ''empty'', vs_active = False, vs_state = JNull \<rparr>"

definition createSearchTabInMainArea :: "world \<Rightarrow> string \<Rightarrow> jsval \<Rightarrow> world" where
  "createSearchTabInMainArea st query searchState =
     (let st1 = st\<lparr>trace := trace st @ [GetLeafTab]\<rparr>
      in if CallGetLeaf \<in> throwing st then st1
         else
           (let leaf = freshLeaf st1;
                st2 = st1\<lparr>freshLeaf := leaf + 1,
                          workspaceLeaves := workspaceLeaves st1 @ [leaf],
                          parentOf := (parentOf st1)(leaf \<mapsto> rootSplit st1),
                          viewStateOf := (viewStateOf st1)(leaf := emptyViewState),
                          setViewStateOf := (setViewStateOf st1)(leaf := HostSetViewState)\<rparr>;
                finalState = (if truthy searchState then searchState else JObj [])
            in case (if query \<noteq> [] then assignProp finalState ''query'' (JStr query)
                     else Some finalState) of
                 None \<Rightarrow> st2
               | Some finalState' \<Rightarrow>
                   (let viewState = \<lparr> vs_type = ''search'', vs_active = True,
                                       vs_state = finalState' \<rparr>;
                        (ok, st3) = originalSetViewState st2 leaf viewState
                    in if ok
                       then st3\<lparr>pendingTasks := pendingTasks st3 @ [(clock st3, FinishCreate leaf)]\<rparr>
                       else st3)))"

definition finishCreate :: "world \<Rightarrow> leaf \<Rightarrow> world" where
  "finishCreate st leaf =
     (let pinFails = autoPinSearchTab (settings st) \<and> CallSetPinned \<in> throwing st;
          st1 = (if autoPinSearchTab (settings st)
                 then st\<lparr>trace := trace st @ [SetPinned leaf]\<rparr> else st)
      in if pinFails then st1
         else
           (let st2 = st1\<lparr>trace := trace st1 @ [RevealLeaf leaf]\<rparr>
            in if CallRevealLeaf \<in> throwing st then st2
               else st2\<lparr>pendingTasks := pendingTasks st2 @ [(clock st2 + 50, FocusSearchInput leaf)]\<rparr>))"

text \<open>\<open>searchState?.query || ""\<close> followed by \<open>String(...)\<close>.\<close>

definition queryString :: "jsval \<Rightarrow> string" where
  "queryString searchState =
     (let q = getProp searchState ''query'' in if truthy q then jsString q else [])"

text \<open>
  \<open>redirectSidebarSearchToMainArea\<close>: mark, hide, read the state, request the
  replacement (not awaited), and hand the detach to \<open>setTimeout(..., 10)\<close>.
\<close>

definition redirectSidebarSearchToMainArea :: "world \<Rightarrow> leaf \<Rightarrow> world" where
  "redirectSidebarSearchToMainArea st leaf =
     (let st1 = st\<lparr>processedLeaves := insert leaf (processedLeaves st)\<rparr>;
          st2 = st1\<lparr>trace := trace st1 @ [HideContainer leaf]\<rparr>
      in if CallGetViewState \<in> throwing st then st2
         else
           (let searchState = vs_state (viewStateOf st2 leaf);
                st3 = createSearchTabInMainArea st2 (queryString searchState) searchState
            in st3\<lparr>pendingTasks := pendingTasks st3 @ [(clock st3 + 10, DetachLeaf leaf)]\<rparr>))"

text \<open>The timer callback \<open>leaf.detach()\<close> and the host's effect when it succeeds.\<close>

definition detachLeaf :: "world \<Rightarrow> leaf \<Rightarrow> world" where
  "detachLeaf st leaf =
     (let st1 = st\<lparr>trace := trace st @ [Detach leaf]\<rparr>
      in if CallDetach \<in> throwing st then st1
         else st1\<lparr>workspaceLeaves := removeAll leaf (workspaceLeaves st1),
                  parentOf := (parentOf st1)(leaf := None),
                  activeLeaf := (if activeLeaf st1 = Some leaf then None else activeLeaf st1)\<rparr>)"

text \<open>
  \<open>handleSearchCommandExecution\<close>: the first peripheral search leaf is redirected,
  whatever its processed mark (the source computes the unprocessed ones and does not
  use them).
\<close>

definition handleSearchCommandExecution :: "world \<Rightarrow> world" where
  "handleSearchCommandExecution st =
     (let (sidebarSearchViews, st1) = sidebarLeaves st (getLeavesOfType st ''search'')
      in case sidebarSearchViews of
           [] \<Rightarrow> st1
         | targetView # others \<Rightarrow> redirectSidebarSearchToMainArea st1 targetView)"

section \<open>Command and view-state interception\<close>

text \<open>
  The function installed by \<open>monitorLeafViewState\<close> in place of \<open>leaf.setViewState\<close>.
  The argument of its first \<open>debugLog\<close> call evaluates \<open>isInMainArea(leaf)\<close>, so the
  later calls in the same run read the cache. An intercepted call resolves without
  reaching the original setter.
\<close>

definition hookedSetViewState :: "world \<Rightarrow> leaf \<Rightarrow> viewState \<Rightarrow> bool \<times> world" where
  "hookedSetViewState st leaf viewState =
     (let (inMain, st1) = isInMainArea st leaf
      in if vs_type viewState = ''search'' \<and> \<not> inMain \<and> \<not> isInInitializationGracePeriod st1
            \<and> openBookmarksInMainArea (settings st1)
         then
           (let searchState = (if truthy (vs_state viewState) then vs_state viewState else JObj [])
            in (True, createSearchTabInMainArea st1 (queryString searchState) searchState))
         else originalSetViewState st1 leaf viewState)"

text \<open>A call of \<open>leaf.setViewState(viewState)\<close>, by the plugin or by the host.\<close>

definition callSetViewState :: "world \<Rightarrow> leaf \<Rightarrow> viewState \<Rightarrow> bool \<times> world" where
  "callSetViewState st leaf viewState =
     (case setViewStateOf st leaf of
        HostSetViewState \<Rightarrow> originalSetViewState st leaf viewState
      | HookedSetViewState \<Rightarrow> hookedSetViewState st leaf viewState)"

definition monitorLeafViewState :: "world \<Rightarrow> leaf \<Rightarrow> world" where
  "monitorLeafViewState st leaf =
     (if leaf \<in> viewStateMonitored st then st
      else st\<lparr>viewStateMonitored := insert leaf (viewStateMonitored st),
              setViewStateOf := (setViewStateOf st)(leaf := HookedSetViewState)\<rparr>)"

text \<open>\<open>iterateAllLeaves(leaf => { if (!this.isInMainArea(leaf)) this.monitorLeafViewState(leaf) })\<close>.\<close>

fun monitorSidebarLeaves :: "world \<Rightarrow> leaf list \<Rightarrow> world" where
  "monitorSidebarLeaves st [] = st"
| "monitorSidebarLeaves st (l # ls) =
     (let (m, st1) = isInMainArea st l
      in monitorSidebarLeaves (if m then st1 else monitorLeafViewState st1 l) ls)"

definition setupViewStateMonitoring :: "world \<Rightarrow> world" where
  "setupViewStateMonitoring st =
     (monitorSidebarLeaves st (workspaceLeaves st))\<lparr>layoutMonitorRegistered := True\<rparr>"

text \<open>The layout-change handler that \<open>setupViewStateMonitoring\<close> registers.\<close>

definition monitorNewSidebarLeaves :: "world \<Rightarrow> world" where
  "monitorNewSidebarLeaves st =
     (let st1 = clearLocationCache st in monitorSidebarLeaves st1 (workspaceLeaves st1))"

text \<open>A command is passed by its id or as an object that may carry an id.\<close>

datatype commandArg = CommandId string | CommandObject "string option"

fun actualCommandId :: "commandArg \<Rightarrow> string" where
  "actualCommandId (CommandId s) = s"
| "actualCommandId (CommandObject None) = []"
| "actualCommandId (CommandObject (Some s)) = s"

definition isSearchCommand :: "string \<Rightarrow> bool" where
  "isSearchCommand commandId =
     (commandId \<in> set [''global-search:open'', ''search-current-file'',
                        ''search:toggle'', ''search:open''])"

definition setupCommandInterception :: "world \<Rightarrow> world" where
  "setupCommandInterception st =
     (if \<not> commandsApi st then st
      else st\<lparr>originalExecuteCommand := Some (executeCommand st),
              executeCommand := HookedExecuteCommand\<rparr>)"

text \<open>
  The function installed over \<open>commands.executeCommand\<close>. It first calls
  \<open>this.originalExecuteCommand\<close>: the host's dispatcher runs the command (its effect on
  the workspace is the host's and precedes this step); if the field is unset, or holds
  the hook itself, the call throws and nothing else happens. After a search command the
  marks of the peripheral search leaves are deleted and a pass is handed to
  \<open>setTimeout(..., 0)\<close>.
\<close>

definition hookedExecuteCommand :: "world \<Rightarrow> commandArg \<Rightarrow> world" where
  "hookedExecuteCommand st commandId =
     (if originalExecuteCommand st \<noteq> Some HostExecuteCommand then st
      else if actualCommandId commandId \<noteq> [] \<and> isSearchCommand (actualCommandId commandId)
      then
        (let (currentSidebarSearchViews, st1) = sidebarLeaves st (getLeavesOfType st ''search'');
             st2 = st1\<lparr>processedLeaves := processedLeaves st1 - set currentSidebarSearchViews\<rparr>
         in st2\<lparr>pendingTasks := pendingTasks st2 @ [(clock st2, RedirectionPass)]\<rparr>)
      else st)"

definition callExecuteCommand :: "world \<Rightarrow> commandArg \<Rightarrow> world" where
  "callExecuteCommand st commandId =
     (case executeCommand st of
        HostExecuteCommand \<Rightarrow> st
      | HookedExecuteCommand \<Rightarrow> hookedExecuteCommand st commandId)"

section \<open>Leaf lifecycle tracker\<close>

text \<open>
  \<open>applySettingsToNewLeaf\<close>; the awaited \<open>setViewState\<close> is taken to settle before the
  next event. The baseline is recorded and the second application is handed to
  \<open>setTimeout(..., 100)\<close> only when the call did not throw.
\<close>

definition applySettingsToNewLeaf :: "world \<Rightarrow> leaf \<Rightarrow> world" where
  "applySettingsToNewLeaf st leaf =
     (if CallGetViewState \<in> throwing st then st
      else
        (let current = viewStateOf st leaf;
             currentQuery = getProp (vs_state current) ''query'';
             desiredState =
               (if rememberQuery (settings st)
                then JObj (ownEntries (lastSearchState (settings st)))
                else JObj (setEntry ''query''
                             (if truthy currentQuery then currentQuery else JStr [])
                             (ownEntries (lastSearchState (settings st)))));
             newState = current\<lparr>vs_state := desiredState\<rparr>;
             (ok, st1) = callSetViewState st leaf newState
         in if \<not> ok then st1
            else st1\<lparr>leafBaselineState := (leafBaselineState st1)(leaf \<mapsto>
                        JSON_stringify (sanitizeSearchStateForPersistence
                          (rememberQuery (settings st1)) desiredState)),
                     pendingTasks := pendingTasks st1 @
                        [(clock st1 + 100, ReapplyViewState leaf newState)]\<rparr>))"

definition startIntelligentMonitoring :: "world \<Rightarrow> leaf \<Rightarrow> world" where
  "startIntelligentMonitoring st leaf =
     (if leafWatchIntervals st leaf \<noteq> None then st
      else
        (let timerId = nextTimerId st
         in st\<lparr>nextTimerId := timerId + 1,
                windowIntervals := windowIntervals st @ [(timerId, leaf)],
                leafWatchIntervals := (leafWatchIntervals st)(leaf \<mapsto> timerId),
                allIntervalIds := allIntervalIds st @ [timerId],
                trace := trace st @ [SetInterval timerId leaf]\<rparr>))"

definition clearIntervalById :: "world \<Rightarrow> nat \<Rightarrow> world" where
  "clearIntervalById st timerId =
     st\<lparr>windowIntervals := filter (\<lambda>t. fst t \<noteq> timerId) (windowIntervals st),
        trace := trace st @ [ClearInterval timerId]\<rparr>"

definition cleanupLeafTracking :: "world \<Rightarrow> leaf \<Rightarrow> world" where
  "cleanupLeafTracking st leaf =
     (let st1 = (case leafWatchIntervals st leaf of
                   None \<Rightarrow> st
                 | Some timerId \<Rightarrow>
                     (clearIntervalById st timerId)
                       \<lparr>leafWatchIntervals := (leafWatchIntervals st)(leaf := None),
                        allIntervalIds := remove1 timerId (allIntervalIds st)\<rparr>)
      in st1\<lparr>leafCreationTime := (leafCreationTime st1)(leaf := None),
              leafBaselineState := (leafBaselineState st1)(leaf := None)\<rparr>)"

text \<open>The interval callback \<open>monitor\<close> of \<open>startIntelligentMonitoring\<close>, run every 800ms.\<close>

definition monitor :: "world \<Rightarrow> leaf \<Rightarrow> world" where
  "monitor st leaf =
     (if vs_type (viewStateOf st leaf) \<noteq> ''search'' then cleanupLeafTracking st leaf
      else
        (let creationTime = (case leafCreationTime st leaf of None \<Rightarrow> 0 | Some t \<Rightarrow> t)
         in if clock st - creationTime < 2000 then st
            else if CallGetViewState \<in> throwing st then st
            else
              (let currentState = vs_state (viewStateOf st leaf)
               in if \<not> truthy currentState then st
                  else
                    (let currentStr = JSON_stringify (sanitizeSearchStateForPersistence
                                        (rememberQuery (settings st)) currentState)
                     in case leafBaselineState st leaf of
                          None \<Rightarrow> st
                        | Some baselineStr \<Rightarrow>
                            if currentStr \<noteq> baselineStr \<and> baselineStr \<noteq> []
                            then
                              (let st1 = st\<lparr>settings := (settings st)\<lparr>lastSearchState :=
                                            sanitizeSearchStateForPersistence
                                              (rememberQuery (settings st)) currentState\<rparr>\<rparr>;
                                   (ok, st2) = saveSettings st1
                               in if ok
                                  then st2\<lparr>leafBaselineState :=
                                             (leafBaselineState st2)(leaf \<mapsto> currentStr)\<rparr>
                                  else st2)
                            else st))))"

text \<open>
  \<open>processNewSearchLeaf\<close>. In the source the test of the \<open>else if\<close> calls \<open>isInMainArea\<close>
  once more, which only fills or reads the cache.
\<close>

definition processNewSearchLeaf :: "world \<Rightarrow> leaf \<Rightarrow> world" where
  "processNewSearchLeaf st leaf =
     (let st1 = st\<lparr>processedLeaves := insert leaf (processedLeaves st),
                   leafCreationTime := (leafCreationTime st)(leaf \<mapsto> clock st)\<rparr>;
          (redirect, st2) =
            (if isInInitializationGracePeriod st1 then (False, st1)
             else if openBookmarksInMainArea (settings st1)
                  then (let (m, s) = isInMainArea st1 leaf in (\<not> m, s))
                  else (False, snd (isInMainArea st1 leaf)))
      in if redirect then triggerRedirection st2
         else
           (let st3 = (if truthy (lastSearchState (settings st2))
                       then applySettingsToNewLeaf st2 leaf else st2)
            in startIntelligentMonitoring st3 leaf))"

fun processNewLeaves :: "world \<Rightarrow> leaf list \<Rightarrow> world" where
  "processNewLeaves st [] = st"
| "processNewLeaves st (leaf # leaves) =
     processNewLeaves
       (if leaf \<in> processedLeaves st then st else processNewSearchLeaf st leaf) leaves"

definition handleLayoutChanges :: "world \<Rightarrow> world" where
  "handleLayoutChanges st =
     (let st1 = clearLocationCache st
      in if \<not> openBookmarksInMainArea (settings st1) then st1
         else processNewLeaves st1 (getLeavesOfType st1 ''search''))"

definition handleExistingSearchLeafActivation :: "world \<Rightarrow> leaf \<Rightarrow> world" where
  "handleExistingSearchLeafActivation st leaf =
     (if isInInitializationGracePeriod st then st
      else
        (let (m, st1) = isInMainArea st leaf
         in if openBookmarksInMainArea (settings st) \<and> \<not> m
            then triggerRedirection st1 else st1))"

definition handleActiveLeafChanges :: "world \<Rightarrow> world" where
  "handleActiveLeafChanges st =
     (case activeLeaf st of
        None \<Rightarrow> st
      | Some leaf \<Rightarrow>
          if vs_type (viewStateOf st leaf) \<noteq> ''search''
             \<or> \<not> openBookmarksInMainArea (settings st) then st
          else
            (let (m, st1) = isInMainArea st leaf
             in if \<not> m \<and> leaf \<in> processedLeaves st1
                then handleExistingSearchLeafActivation st1 leaf else st1))"

section \<open>Commands, startup and teardown\<close>

text \<open>
  \<open>getAnySearchState\<close>: the active leaf if it shows a search view, else the first search
  leaf; \<open>None\<close> when reading its view state throws (no caller guards the call).
\<close>

definition getAnySearchState :: "world \<Rightarrow> jsval option" where
  "getAnySearchState st =
     (case getLeavesOfType st ''search'' of
        [] \<Rightarrow> Some JNull
      | first # others \<Rightarrow>
          (let leaf = (case activeLeaf st of
                         None \<Rightarrow> first
                       | Some a \<Rightarrow> if vs_type (viewStateOf st a) = ''search'' then a else first)
           in if CallGetViewState \<in> throwing st then None
              else Some (vs_state (viewStateOf st leaf))))"

text \<open>The command \<open>save-current-search-state\<close>.\<close>

definition saveCurrentSearchState :: "world \<Rightarrow> world" where
  "saveCurrentSearchState st =
     (case getAnySearchState st of
        None \<Rightarrow> st
      | Some s \<Rightarrow>
          if truthy s
          then snd (saveSettings (st\<lparr>settings := (settings st)\<lparr>lastSearchState :=
                      sanitizeSearchStateForPersistence (rememberQuery (settings st)) s\<rparr>\<rparr>))
          else st)"

text \<open>The command \<open>clear-saved-search-state\<close> (and the button of the settings tab).\<close>

definition clearSavedSearchState :: "world \<Rightarrow> world" where
  "clearSavedSearchState st =
     snd (saveSettings (st\<lparr>settings := (settings st)\<lparr>lastSearchState := JNull\<rparr>\<rparr>))"

text \<open>
  The command \<open>open-search-pinned-remember\<close>, \<open>openPinnedSearchWithLastState\<close>. No call
  is guarded: a throw ends it there.
\<close>

definition openPinnedSearchWithLastState :: "world \<Rightarrow> world" where
  "openPinnedSearchWithLastState st =
     (let st1 = st\<lparr>trace := trace st @ [GetLeafTab]\<rparr>
      in if CallGetLeaf \<in> throwing st then st1
         else
           (let leaf = freshLeaf st1;
                st2 = st1\<lparr>freshLeaf := leaf + 1,
                          workspaceLeaves := workspaceLeaves st1 @ [leaf],
                          parentOf := (parentOf st1)(leaf \<mapsto> rootSplit st1),
                          viewStateOf := (viewStateOf st1)(leaf := emptyViewState),
                          setViewStateOf := (setViewStateOf st1)(leaf := HostSetViewState)\<rparr>;
                saved = (if lastSearchState (settings st) = JNull then JObj []
                         else lastSearchState (settings st));
                viewState = \<lparr> vs_type = ''search'', vs_active = True,
                              vs_state = (if rememberQuery (settings st) then saved
                                          else JObj (setEntry ''query'' (JStr []) (ownEntries saved))) \<rparr>;
                (ok, st3) = originalSetViewState st2 leaf viewState
            in if \<not> ok then st3
               else
                 (let pinFails = autoPinSearchTab (settings st3) \<and> CallSetPinned \<in> throwing st3;
                      st4 = (if autoPinSearchTab (settings st3)
                             then st3\<lparr>trace := trace st3 @ [SetPinned leaf]\<rparr> else st3)
                  in if pinFails then st4
                     else
                       (let st5 = st4\<lparr>trace := trace st4 @ [RevealLeaf leaf]\<rparr>
                        in if CallRevealLeaf \<in> throwing st3 then st5
                           else st5\<lparr>pendingTasks := pendingTasks st5 @
                                      [(clock st5 + 50, FocusSearchInput leaf)]\<rparr>))))"

text \<open>\<open>performStartupCleanup\<close>: every peripheral search leaf is detached.\<close>

definition performStartupCleanup :: "world \<Rightarrow> world" where
  "performStartupCleanup st =
     (let (sidebarSearchLeaves, st1) = sidebarLeaves st (getLeavesOfType st ''search'')
      in foldl detachLeaf st1 sidebarSearchLeaves)"

text \<open>\<open>setupStartupCleanup\<close> hands the cleanup to \<open>onLayoutReady\<close>.\<close>

definition setupStartupCleanup :: "world \<Rightarrow> world" where
  "setupStartupCleanup st = st\<lparr>pendingTasks := pendingTasks st @ [(clock st, StartupCleanup)]\<rparr>"

text \<open>
  \<open>onload\<close>. The two event handlers count as registered once \<open>pluginLoaded\<close> holds; the
  awaited calls are taken to settle before the next event.
\<close>

definition onload :: "world \<Rightarrow> world" where
  "onload st =
     (let st1 = loadSettings st;
          st2 = handleLayoutChanges (st1\<lparr>pluginLoaded := True\<rparr>);
          st3 = (if openBookmarksInMainArea (settings st2) then setupViewStateMonitoring st2 else st2);
          st4 = (if openBookmarksInMainArea (settings st3) then setupCommandInterception st3 else st3);
          st5 = (if clearSidebarSearchOnStartup (settings st4) then setupStartupCleanup st4 else st4)
      in st5\<lparr>isInitialLoad := False, initializationCompleteTime := clock st5\<rparr>)"

text \<open>
  \<^verbatim>\<open>
  onunload() {
    this.allIntervalIds.forEach(id => window.clearInterval(id));
    this.allIntervalIds = [];
    this.processedLeaves = new WeakSet();
    this.leafCreationTime = new WeakMap();
    this.leafWatchIntervals = new WeakMap();
    this.leafBaselineState = new WeakMap();
    if (this.detectionIntervalId) { window.clearInterval(this.detectionIntervalId);
                                    this.detectionIntervalId = null; }
    if (this.originalExecuteCommand && (this.app as any).commands) {
      (this.app as any).commands.executeCommand = this.originalExecuteCommand;
      this.originalExecuteCommand = null;
    }
  }
  \<close>
  The host then drops the registered event handlers.
\<close>

definition onunload :: "world \<Rightarrow> world" where
  "onunload st =
     (let st1 = foldl clearIntervalById st (allIntervalIds st);
          st2 = st1\<lparr>allIntervalIds := [],
                    processedLeaves := {},
                    leafCreationTime := Map.empty,
                    leafWatchIntervals := Map.empty,
                    leafBaselineState := Map.empty\<rparr>;
          st3 = (case detectionIntervalId st2 of
                   None \<Rightarrow> st2
                 | Some timerId \<Rightarrow>
                     if timerId = 0 then st2
                     else (clearIntervalById st2 timerId)\<lparr>detectionIntervalId := None\<rparr>);
          st4 = (case originalExecuteCommand st3 of
                   None \<Rightarrow> st3
                 | Some original \<Rightarrow>
                     if commandsApi st3
                     then st3\<lparr>executeCommand := original, originalExecuteCommand := None\<rparr>
                     else st3)
      in st4\<lparr>pluginLoaded := False, layoutMonitorRegistered := False\<rparr>)"

text \<open>A new plugin instance over the same host: the field initialisers of the class.\<close>

definition newInstance :: "world \<Rightarrow> world" where
  "newInstance st =
     st\<lparr>settings := DEFAULT_SETTINGS,
        processedLeaves := {},
        leafCreationTime := Map.empty,
        leafWatchIntervals := Map.empty,
        leafBaselineState := Map.empty,
        allIntervalIds := [],
        detectionIntervalId := None,
        originalExecuteCommand := None,
        isInitialLoad := True,
        initializationCompleteTime := 0,
        lastRedirectionTriggerTime := 0,
        leafLocationCache := Map.empty,
        layoutMonitorRegistered := False,
        pluginLoaded := False\<rparr>"

text \<open>
  The toggle "Open search bookmarks in main area" of the settings tab: the setting is
  stored and saved, and when it was switched on and the save did not throw,
  \<open>setupCommandInterception\<close> runs (again).
\<close>

definition toggleOpenBookmarksInMainArea :: "world \<Rightarrow> bool \<Rightarrow> world" where
  "toggleOpenBookmarksInMainArea st v =
     (let (ok, st1) =
            saveSettings (st\<lparr>settings := (settings st)\<lparr>openBookmarksInMainArea := v\<rparr>\<rparr>)
      in if ok \<and> v then setupCommandInterception st1 else st1)"

section \<open>Timers and events\<close>

text \<open>Running a pending callback.\<close>

fun runTask :: "world \<Rightarrow> task \<Rightarrow> world" where
  "runTask st RedirectionPass = handleSearchCommandExecution st"
| "runTask st (DetachLeaf leaf) = detachLeaf st leaf"
| "runTask st (ReapplyViewState leaf newState) = snd (callSetViewState st leaf newState)"
| "runTask st (FocusSearchInput leaf) = st\<lparr>trace := trace st @ [FocusInput leaf]\<rparr>"
| "runTask st (FinishCreate leaf) = finishCreate st leaf"
| "runTask st StartupCleanup = performStartupCleanup st"

text \<open>The three commands the plugin registers.\<close>

datatype pluginCommand =
    OpenSearchPinnedRemember
  | SaveCurrentSearchState
  | ClearSavedSearchState

text \<open>
  What can happen next: time passes, the user or the host changes the state a view
  reports, a workspace event is delivered to the handlers registered by \<open>onload\<close>, an
  interval timer fires, the \<open>k\<close>-th pending callback runs once it is due, a command is
  dispatched through \<open>commands.executeCommand\<close>, somebody calls \<open>setViewState\<close> on a
  leaf, or the callback of one of the plugin's own three commands runs.
\<close>

datatype stimulus =
    TimePasses nat
  | ViewReports leaf jsval
  | LayoutChange
  | ActiveLeafChange
  | IntervalFires nat
  | TaskRuns nat
  | CommandDispatched commandArg
  | SetViewStateCalled leaf viewState
  | PluginCommand pluginCommand

fun deliver :: "world \<Rightarrow> stimulus \<Rightarrow> world" where
  "deliver st (TimePasses d) = st\<lparr>clock := clock st + int d\<rparr>"
| "deliver st (ViewReports leaf s) =
     st\<lparr>viewStateOf := (viewStateOf st)(leaf := (viewStateOf st leaf)\<lparr>vs_state := s\<rparr>)\<rparr>"
| "deliver st LayoutChange =
     (if \<not> pluginLoaded st then st
      else (let st1 = handleLayoutChanges st
            in if layoutMonitorRegistered st1 then monitorNewSidebarLeaves st1 else st1))"
| "deliver st ActiveLeafChange =
     (if \<not> pluginLoaded st then st else handleActiveLeafChanges st)"
| "deliver st (IntervalFires timerId) =
     (case map_of (windowIntervals st) timerId of
        None \<Rightarrow> st
      | Some leaf \<Rightarrow> monitor st leaf)"
| "deliver st (TaskRuns k) =
     (if k < length (pendingTasks st) \<and> fst (pendingTasks st ! k) \<le> clock st
      then runTask (st\<lparr>pendingTasks := take k (pendingTasks st) @ drop (Suc k) (pendingTasks st)\<rparr>)
             (snd (pendingTasks st ! k))
      else st)"
| "deliver st (CommandDispatched commandId) = callExecuteCommand st commandId"
| "deliver st (SetViewStateCalled leaf viewState) = snd (callSetViewState st leaf viewState)"
| "deliver st (PluginCommand c) =
     (if \<not> pluginLoaded st then st
      else case c of
             OpenSearchPinnedRemember \<Rightarrow> openPinnedSearchWithLastState st
           | SaveCurrentSearchState \<Rightarrow> saveCurrentSearchState st
           | ClearSavedSearchState \<Rightarrow> clearSavedSearchState st)"

definition run :: "world \<Rightarrow> stimulus list \<Rightarrow> world" where
  "run st stimuli = foldl deliver st stimuli"

text \<open>
  The user and one watched leaf: the user waits, edits what the leaf's view reports, and
  the leaf's \<open>monitor\<close> callback runs.
\<close>

datatype userAction = Wait nat | Edit jsval | Poll

fun userStep :: "leaf \<Rightarrow> world \<Rightarrow> userAction \<Rightarrow> world" where
  "userStep leaf st (Wait d) = deliver st (TimePasses d)"
| "userStep leaf st (Edit s) = deliver st (ViewReports leaf s)"
| "userStep leaf st Poll = monitor st leaf"

definition userRun :: "leaf \<Rightarrow> world \<Rightarrow> userAction list \<Rightarrow> world" where
  "userRun leaf st actions = foldl (userStep leaf) st actions"

text \<open>
  The footprint of redirection: hiding a leaf, requesting a tab and detaching a leaf in
  the trace; a pass, a detach and the rest of a tab creation among the pending callbacks.
\<close>

fun isRedirectionEvent :: "event \<Rightarrow> bool" where
  "isRedirectionEvent (HideContainer l) = True"
| "isRedirectionEvent GetLeafTab = True"
| "isRedirectionEvent (Detach l) = True"
| "isRedirectionEvent e = False"

fun isRedirectionTask :: "task \<Rightarrow> bool" where
  "isRedirectionTask RedirectionPass = True"
| "isRedirectionTask (DetachLeaf l) = True"
| "isRedirectionTask (FinishCreate l) = True"
| "isRedirectionTask t = False"

text \<open>The trace only grows: \<open>traceExtends st st'\<close> says that \<open>st'\<close> has the trace of \<open>st\<close> as a prefix.\<close>

definition traceExtends :: "world \<Rightarrow> world \<Rightarrow> bool" where
  "traceExtends st st' = (\<exists>evs. trace st' = trace st @ evs)"

text \<open>The calls of the host's \<open>setViewState\<close> on one leaf, as the trace shows them.\<close>

fun isSetViewStateOf :: "leaf \<Rightarrow> event \<Rightarrow> bool" where
  "isSetViewStateOf l (SetViewState l' vs) = (l' = l)"
| "isSetViewStateOf l e = False"

definition appliedTo :: "leaf \<Rightarrow> world \<Rightarrow> event list" where
  "appliedTo l st = filter (isSetViewStateOf l) (trace st)"

text \<open>
  The hooked \<open>setViewState\<close> of a leaf passes every call on to the host's setter when
  the grace period is running, redirection is switched off, or the classifier puts the
  leaf in the main area.
\<close>

definition noIntercept :: "world \<Rightarrow> leaf \<Rightarrow> bool" where
  "noIntercept st l =
     (isInInitializationGracePeriod st \<or> \<not> openBookmarksInMainArea (settings st) \<or>
      fst (isInMainArea st l))"

definition redirectionEvents :: "world \<Rightarrow> event list" where
  "redirectionEvents st = filter isRedirectionEvent (trace st)"

definition redirectionTasks :: "world \<Rightarrow> task list" where
  "redirectionTasks st = filter isRedirectionTask (map snd (pendingTasks st))"

section \<open>Example workspaces\<close>

text \<open>
  A host with no leaves and a plugin instance that has not been loaded. Item 0 is the
  root split.
\<close>

definition blankWorld :: world where
  "blankWorld =
     \<lparr> settings = DEFAULT_SETTINGS,
       processedLeaves = {},
       leafCreationTime = Map.empty,
       leafWatchIntervals = Map.empty,
       leafBaselineState = Map.empty,
       allIntervalIds = [],
       detectionIntervalId = None,
       originalExecuteCommand = None,
       isInitialLoad = True,
       initializationCompleteTime = 0,
       lastRedirectionTriggerTime = 0,
       leafLocationCache = Map.empty,
       layoutMonitorRegistered = False,
       pluginLoaded = False,
       clock = 1000000,
       workspaceLeaves = [],
       parentOf = Map.empty,
       rootSplit = 0,
       activeLeaf = None,
       viewStateOf = (\<lambda>l. emptyViewState),
       setViewStateOf = (\<lambda>l. HostSetViewState),
       viewStateMonitored = {},
       freshLeaf = 100,
       commandsApi = True,
       executeCommand = HostExecuteCommand,
       windowIntervals = [],
       nextTimerId = 1,
       pendingTasks = [],
       dataFile = None,
       throwing = {},
       trace = [] \<rparr>"

definition searchView :: "jsval \<Rightarrow> viewState" where
  "searchView s = \<lparr> vs_type = ''search'', vs_active = False, vs_state = s \<rparr>"

text \<open>
  Leaf 1 shows a search view in a tab group (item 10) directly under the root split:
  a main-area leaf.
\<close>

definition mainLeafWorld :: world where
  "mainLeafWorld =
     blankWorld\<lparr>workspaceLeaves := [1],
                parentOf := [1 \<mapsto> 10, 10 \<mapsto> 0],
                viewStateOf := (\<lambda>l. emptyViewState)(1 := searchView (JObj [(''query'', JStr ''todo'')]))\<rparr>"

text \<open>
  The same leaf after it was classified once and the host then moved it into the left
  sidebar (tab group 20 under the left split 21), before any layout-change event.
\<close>

definition movedLeafWorld :: world where
  "movedLeafWorld = (snd (isInMainArea mainLeafWorld 1))\<lparr>parentOf := [1 \<mapsto> 20, 20 \<mapsto> 21]\<rparr>"

text \<open>An instance whose settings differ from the defaults and remember a state.\<close>

definition rememberingWorld :: world where
  "rememberingWorld =
     blankWorld\<lparr>settings := \<lparr> lastSearchState = JObj [(''sortOrder'', JStr ''alphabetical'')],
                                 rememberQuery = True,
                                 openBookmarksInMainArea = False,
                                 clearSidebarSearchOnStartup = True,
                                 debugMode = True,
                                 autoPinSearchTab = False \<rparr>\<rparr>"

text \<open>
  Leaf 1 shows a search view in the left sidebar (tab group 20 under the left split 21,
  which has no parent); nothing was ever saved. \<open>loadedSidebarWorld\<close> is the state when
  \<open>onload\<close> has finished at time 1000000: the leaf was processed during the initial load.
\<close>

definition sidebarWorld :: world where
  "sidebarWorld =
     blankWorld\<lparr>workspaceLeaves := [1],
                parentOf := [1 \<mapsto> 20, 20 \<mapsto> 21],
                viewStateOf := (\<lambda>l. emptyViewState)(1 := searchView (JObj [(''query'', JStr ''todo'')]))\<rparr>"

definition loadedSidebarWorld :: world where
  "loadedSidebarWorld = onload sidebarWorld"

text \<open>Three seconds later the user activates the leaf, and the scheduled pass runs.\<close>

definition reactivatedWorld :: world where
  "reactivatedWorld =
     run (loadedSidebarWorld\<lparr>activeLeaf := Some 1\<rparr>)
       [TimePasses 3000, ActiveLeafChange, TimePasses 10, TaskRuns 0]"

text \<open>100ms after startup the user runs the search command, and the scheduled pass runs.\<close>

definition graceCommandWorld :: world where
  "graceCommandWorld =
     run loadedSidebarWorld
       [TimePasses 100, CommandDispatched (CommandId ''global-search:open''), TaskRuns 0]"

text \<open>
  Three seconds after startup the search command is run twice, 1ms apart; each time the
  scheduled pass runs at once.
\<close>

definition twoCommandsWorld :: world where
  "twoCommandsWorld =
     run loadedSidebarWorld
       [TimePasses 3000, CommandDispatched (CommandId ''global-search:open''), TaskRuns 0,
        TimePasses 1, CommandDispatched (CommandId ''global-search:open''), TaskRuns 2]"

text \<open>
  Two search leaves in the left sidebar, nothing saved. Within the first 200ms after
  startup the user saves the current search state and runs the search command; the
  pass redirects leaf 1, and the layout change that follows finds leaf 2 without its
  mark. Three seconds later the user changes a toggle in leaf 2 and its monitor runs.
\<close>

definition twoSidebarWorld :: world where
  "twoSidebarWorld =
     blankWorld\<lparr>workspaceLeaves := [1, 2],
                parentOf := [1 \<mapsto> 20, 2 \<mapsto> 20, 20 \<mapsto> 21],
                viewStateOf := (\<lambda>l. emptyViewState)
                  (1 := searchView (JObj [(''query'', JStr ''todo'')]),
                   2 := searchView (JObj [(''query'', JStr ''done'')]))\<rparr>"

definition reprocessedWorld :: world where
  "reprocessedWorld =
     run (onload twoSidebarWorld)
       [TimePasses 100, PluginCommand SaveCurrentSearchState,
        TimePasses 100, CommandDispatched (CommandId ''global-search:open''), TaskRuns 0,
        LayoutChange]"

definition editedWorld :: world where
  "editedWorld =
     run reprocessedWorld
       [TimePasses 3000,
        ViewReports 2 (JObj [(''query'', JStr ''done''), (''matchingCase'', JBool True)]),
        IntervalFires 2]"

text \<open>
  Half a second after startup the host has restored a second search leaf (leaf 2) into
  the left sidebar; the plugin has not seen it yet.
\<close>

definition restoredLeafWorld :: world where
  "restoredLeafWorld =
     loadedSidebarWorld\<lparr>clock := 1000500,
                        workspaceLeaves := [1, 2],
                        parentOf := [1 \<mapsto> 20, 2 \<mapsto> 20, 20 \<mapsto> 21],
                        viewStateOf := (viewStateOf loadedSidebarWorld)
                           (2 := searchView (JObj [(''query'', JStr ''done'')]))\<rparr>"

text \<open>
  The plugin of \<open>loadedSidebarWorld\<close> is unloaded; three seconds later somebody sets a
  search view on leaf 1.
\<close>

definition unloadedWorld :: world where
  "unloadedWorld = onunload loadedSidebarWorld"

definition afterUnloadWorld :: world where
  "afterUnloadWorld =
     run unloadedWorld [TimePasses 3000, SetViewStateCalled 1 (searchView (JObj [(''query'', JStr ''later'')]))]"

text \<open>
  In the settings tab the user switches "Open search bookmarks in main area" off and on
  again, and then the plugin is unloaded.
\<close>

definition retoggledWorld :: world where
  "retoggledWorld =
     toggleOpenBookmarksInMainArea (toggleOpenBookmarksInMainArea loadedSidebarWorld False) True"

section \<open>Properties of the sanitizer\<close>

lemma restWithout_filter: "restWithout k kvs = filter (\<lambda>kv. fst kv \<noteq> k) kvs"
  by (induction kvs) auto

lemma map_of_restWithout: "map_of (restWithout k kvs) = (map_of kvs)(k := None)"
  by (induction kvs) (auto simp: fun_eq_iff)

lemma restWithout_idem: "restWithout k (restWithout k kvs) = restWithout k kvs"
  by (induction kvs) auto

text \<open>
  C5. With \<open>rememberQuery\<close> true the sanitizer returns its argument unchanged, whatever
  the value. With \<open>rememberQuery\<close> false it maps a state object (a mapping from keys to
  values) to an object that has no \<open>query\<close> property and agrees with the state on every
  other key; the remaining properties keep their order.
\<close>

theorem sanitize_spec:
  "sanitizeSearchStateForPersistence True S = S \<and>
   (\<exists>rest. sanitizeSearchStateForPersistence False (JObj kvs) = JObj rest \<and>
            map_of rest = (map_of kvs)(''query'' := None) \<and>
            rest = filter (\<lambda>kv. fst kv \<noteq> ''query'') kvs)"
proof -
  have "sanitizeSearchStateForPersistence False (JObj kvs) = JObj (restWithout ''query'' kvs)"
    by (simp add: sanitizeSearchStateForPersistence_def)
  moreover have "map_of (restWithout ''query'' kvs) = (map_of kvs)(''query'' := None)"
    by (rule map_of_restWithout)
  moreover have "restWithout ''query'' kvs = filter (\<lambda>kv. fst kv \<noteq> ''query'') kvs"
    by (rule restWithout_filter)
  moreover have "sanitizeSearchStateForPersistence True S = S"
    by (simp add: sanitizeSearchStateForPersistence_def)
  ultimately show ?thesis by blast
qed

theorem sanitize_spec_witness:
  "sanitizeSearchStateForPersistence True
     (JObj [(''query'', JStr ''abc''), (''sortOrder'', JStr ''alphabetical'')])
     = JObj [(''query'', JStr ''abc''), (''sortOrder'', JStr ''alphabetical'')] \<and>
   sanitizeSearchStateForPersistence False
     (JObj [(''query'', JStr ''abc''), (''sortOrder'', JStr ''alphabetical'')])
     = JObj [(''sortOrder'', JStr ''alphabetical'')]"
  using sanitize_spec [of "JObj [(''query'', JStr ''abc''), (''sortOrder'', JStr ''alphabetical'')]"
                          "[(''query'', JStr ''abc''), (''sortOrder'', JStr ''alphabetical'')]"]
  by simp

text \<open>
  C9. Sanitizing with \<open>rememberQuery\<close> false is idempotent, on every value: a value that
  is not an object is returned as it is, and the result for an object or an array is an
  object without a \<open>query\<close> property, which a second pass leaves alone.
\<close>

theorem sanitize_idempotent:
  "sanitizeSearchStateForPersistence False (sanitizeSearchStateForPersistence False S)
     = sanitizeSearchStateForPersistence False S"
  by (cases S) (simp_all add: sanitizeSearchStateForPersistence_def restWithout_idem)

theorem sanitize_idempotent_witness:
  "sanitizeSearchStateForPersistence False (sanitizeSearchStateForPersistence False
       (JObj [(''query'', JStr ''abc''), (''matchingCase'', JBool True)]))
     = JObj [(''matchingCase'', JBool True)]"
  using sanitize_idempotent [of "JObj [(''query'', JStr ''abc''), (''matchingCase'', JBool True)]"]
  by (simp add: sanitizeSearchStateForPersistence_def)

section \<open>Properties of the classifier\<close>

lemma walkParents_depth: "depth \<le> 10 \<Longrightarrow> snd (walkParents par root parent depth) \<le> 10"
proof (induction par root parent depth rule: walkParents.induct)
  case (1 par root parent depth)
  then show ?case by (cases parent) auto
qed

lemma walkParents_iff:
  "fst (walkParents par root parent depth) =
     (\<exists>k. depth + k < 10 \<and> nthAncestor par parent k = Some root)"
proof (induction par root parent depth rule: walkParents.induct)
  case (1 par root parent depth)
  show ?case
  proof (cases parent)
    case None
    have "\<And>k. nthAncestor par None k = None" by (case_tac k) auto
    with None show ?thesis by simp
  next
    case (Some p)
    show ?thesis
    proof (cases "depth < 10")
      case False
      with Some show ?thesis by simp
    next
      case lt: True
      show ?thesis
      proof (cases "p = root")
        case True
        with Some lt have "depth + 0 < 10 \<and> nthAncestor par parent 0 = Some root" by simp
        then have "\<exists>k. depth + k < 10 \<and> nthAncestor par parent k = Some root" by blast
        with Some lt True show ?thesis by simp
      next
        case False
        have IH: "fst (walkParents par root (par p) (depth + 1)) =
                  (\<exists>k. depth + 1 + k < 10 \<and> nthAncestor par (par p) k = Some root)"
          using "1.IH" [OF Some lt False] .
        have "(\<exists>k. depth + k < 10 \<and> nthAncestor par (Some p) k = Some root) =
              (\<exists>k. depth + 1 + k < 10 \<and> nthAncestor par (par p) k = Some root)"
        proof
          assume "\<exists>k. depth + k < 10 \<and> nthAncestor par (Some p) k = Some root"
          then obtain k where k: "depth + k < 10" "nthAncestor par (Some p) k = Some root" by blast
          with False obtain j where "k = Suc j" by (cases k) auto
          with k show "\<exists>k. depth + 1 + k < 10 \<and> nthAncestor par (par p) k = Some root"
            by auto
        next
          assume "\<exists>k. depth + 1 + k < 10 \<and> nthAncestor par (par p) k = Some root"
          then obtain j where "depth + 1 + j < 10" "nthAncestor par (par p) j = Some root" by blast
          then have "depth + Suc j < 10 \<and> nthAncestor par (Some p) (Suc j) = Some root" by simp
          then show "\<exists>k. depth + k < 10 \<and> nthAncestor par (Some p) k = Some root" by blast
        qed
        with IH Some lt False show ?thesis by simp
      qed
    qed
  qed
qed

lemma rootWithinBound_iff:
  "rootWithinBound par root leaf = (\<exists>k<10. nthAncestor par (par leaf) k = Some root)"
  by (auto simp: rootWithinBound_def list_ex_iff)

text \<open>
  C6 (amended). The walk looks at no more than ten ancestors (its depth counter never
  exceeds 10) and, being a total function, always ends. When the cache holds no answer
  for the leaf, the classifier answers main-area exactly when the root split is among
  the first ten ancestors, and peripheral otherwise; when the cache holds an answer, it
  returns that answer without walking. Either way the answer is in the cache afterwards.
\<close>

theorem classifier_spec:
  "fst (isInMainArea st leaf) =
     (case leafLocationCache st leaf of
        Some cachedResult \<Rightarrow> cachedResult
      | None \<Rightarrow> rootWithinBound (parentOf st) (rootSplit st) leaf) \<and>
   snd (walkParents (parentOf st) (rootSplit st) (parentOf st leaf) 0) \<le> 10 \<and>
   leafLocationCache (snd (isInMainArea st leaf)) leaf = Some (fst (isInMainArea st leaf))"
  using walkParents_iff [of "parentOf st" "rootSplit st" "parentOf st leaf" 0]
        walkParents_depth [of 0 "parentOf st" "rootSplit st" "parentOf st leaf"]
  by (auto simp: isInMainArea_def rootWithinBound_iff Let_def split: option.splits)

theorem classifier_spec_witness:
  "fst (isInMainArea mainLeafWorld 1) = True \<and> leafLocationCache mainLeafWorld 1 = None \<and>
   rootWithinBound (parentOf mainLeafWorld) (rootSplit mainLeafWorld) 1"
  using classifier_spec [of mainLeafWorld 1]
  by code_simp

text \<open>
  C6 as stated fails on a cache hit: leaf 1 was classified in the main area, the host
  moved it into the sidebar, and no layout-change event has cleared the cache yet. The
  classifier still answers main-area although the root split is not among the ancestors.
\<close>

theorem classifier_counterexample:
  "fst (isInMainArea movedLeafWorld 1) = True \<and>
   rootWithinBound (parentOf movedLeafWorld) (rootSplit movedLeafWorld) 1 = False"
  by code_simp

section \<open>Properties of the settings store\<close>

lemma map_of_setEntry: "map_of (setEntry k v kvs) = (map_of kvs)(k \<mapsto> v)"
  by (induction kvs) (auto simp: fun_eq_iff)

lemma map_of_objectAssign:
  "map_of (objectAssign target source) = map_of target ++ map_of (rev source)"
  unfolding objectAssign_def
proof (induction source arbitrary: target)
  case Nil
  then show ?case by simp
next
  case (Cons kv source)
  have "map_of (foldl (\<lambda>acc kv. setEntry (fst kv) (snd kv) acc) target (kv # source))
        = map_of (setEntry (fst kv) (snd kv) target) ++ map_of (rev source)"
    using Cons.IH [of "setEntry (fst kv) (snd kv) target"] by simp
  also have "\<dots> = (map_of target)(fst kv \<mapsto> snd kv) ++ map_of (rev source)"
    by (simp add: map_of_setEntry)
  also have "\<dots> = map_of target ++ map_of (rev (kv # source))"
    by (cases kv) (simp add: map_add_upd_left fun_eq_iff map_add_def split: option.splits)
  finally show ?case .
qed

lemma merge_saved: "settingsOfObject (mergeSettings (Some (settingsObject s))) = s"
  by (simp add: mergeSettings_def objectAssign_def settingsObject_def settingsOfObject_def
        getProp_def DEFAULT_SETTINGS_def)

lemma merge_lookup:
  "map_of (mergeSettings (Some d)) k =
     (case map_of (rev d) k of
        Some v \<Rightarrow> Some v
      | None \<Rightarrow> map_of (settingsObject DEFAULT_SETTINGS) k)"
proof -
  have "objectAssign [] (settingsObject DEFAULT_SETTINGS) = settingsObject DEFAULT_SETTINGS"
    by (simp add: objectAssign_def settingsObject_def)
  then have "map_of (mergeSettings (Some d)) =
             map_of (settingsObject DEFAULT_SETTINGS) ++ map_of (rev d)"
    by (simp add: mergeSettings_def map_of_objectAssign)
  then show ?thesis
    by (simp add: map_add_def split: option.splits)
qed

text \<open>
  C8. When \<open>saveData\<close> succeeds, saving the settings and loading them in a new instance
  gives the same record: the same \<open>lastSearchState\<close> and the same flags. A property that
  the stored object lacks reads as in the defaults, and with nothing stored the settings
  are the defaults.
\<close>

theorem settings_roundtrip:
  "(CallSaveData \<notin> throwing st \<longrightarrow>
      settings (loadSettings (newInstance (snd (saveSettings st)))) = settings st) \<and>
   (k \<notin> fst ` set d \<longrightarrow>
      map_of (mergeSettings (Some d)) k = map_of (settingsObject DEFAULT_SETTINGS) k) \<and>
   settingsOfObject (mergeSettings None) = DEFAULT_SETTINGS"
proof (intro conjI impI)
  assume "CallSaveData \<notin> throwing st"
  then show "settings (loadSettings (newInstance (snd (saveSettings st)))) = settings st"
    by (simp add: loadSettings_def newInstance_def saveSettings_def Let_def merge_saved)
next
  assume "k \<notin> fst ` set d"
  then have "map_of (rev d) k = None" by (simp add: map_of_eq_None_iff)
  then show "map_of (mergeSettings (Some d)) k = map_of (settingsObject DEFAULT_SETTINGS) k"
    by (simp add: merge_lookup)
next
  show "settingsOfObject (mergeSettings None) = DEFAULT_SETTINGS"
    by (simp add: mergeSettings_def objectAssign_def settingsObject_def settingsOfObject_def
        getProp_def DEFAULT_SETTINGS_def)
qed

theorem settings_roundtrip_witness:
  "CallSaveData \<notin> throwing rememberingWorld \<and>
   settings (loadSettings (newInstance (snd (saveSettings rememberingWorld))))
     = settings rememberingWorld \<and>
   lastSearchState (settings rememberingWorld) = JObj [(''sortOrder'', JStr ''alphabetical'')] \<and>
   ''debugMode'' \<notin> fst ` set [(''rememberQuery'', JBool True)] \<and>
   map_of (mergeSettings (Some [(''rememberQuery'', JBool True)])) ''debugMode'' = Some (JBool False)"
  using settings_roundtrip [of rememberingWorld "''debugMode''" "[(''rememberQuery'', JBool True)]"]
  by (simp add: rememberingWorld_def blankWorld_def settingsObject_def DEFAULT_SETTINGS_def)

section \<open>Properties of the lifecycle tracker\<close>

subsection \<open>The classifier changes the cache only\<close>

lemma isInMainArea_snd:
  "snd (isInMainArea st l) =
     st\<lparr>leafLocationCache := (leafLocationCache st)(l \<mapsto> fst (isInMainArea st l))\<rparr>"
  by (cases "leafLocationCache st l") (simp_all add: isInMainArea_def Let_def map_upd_triv)

lemma isInMainArea_again:
  "fst (isInMainArea (st\<lparr>leafLocationCache := (leafLocationCache st)(l \<mapsto> b)\<rparr>) l) = b"
  by (simp add: isInMainArea_def)

lemma isInMainArea_cong:
  "leafLocationCache st' = leafLocationCache st \<Longrightarrow> parentOf st' = parentOf st \<Longrightarrow>
   rootSplit st' = rootSplit st \<Longrightarrow> fst (isInMainArea st' l) = fst (isInMainArea st l)"
  by (simp add: isInMainArea_def Let_def split: option.splits)

lemma grace_cong:
  "isInitialLoad st' = isInitialLoad st \<Longrightarrow> clock st' = clock st \<Longrightarrow>
   initializationCompleteTime st' = initializationCompleteTime st \<Longrightarrow>
   isInInitializationGracePeriod st' = isInInitializationGracePeriod st"
  by (simp add: isInInitializationGracePeriod_def)

lemma grace_cache [simp]:
  "isInInitializationGracePeriod (st\<lparr>leafLocationCache := c\<rparr>) = isInInitializationGracePeriod st"
  by (simp add: isInInitializationGracePeriod_def)

lemma hooked_noIntercept:
  assumes "noIntercept st l"
  shows "hookedSetViewState st l vs = originalSetViewState (snd (isInMainArea st l)) l vs"
proof -
  have "\<not> (vs_type vs = ''search'' \<and> \<not> fst (isInMainArea st l) \<and>
            \<not> isInInitializationGracePeriod (snd (isInMainArea st l)) \<and>
            openBookmarksInMainArea (settings (snd (isInMainArea st l))))"
    using assms by (auto simp: noIntercept_def isInMainArea_snd)
  then show ?thesis
    unfolding hookedSetViewState_def case_prod_beta Let_def by (rule if_not_P)
qed

lemma callSetViewState_noIntercept:
  assumes "noIntercept st l"
  shows "callSetViewState st l vs =
           originalSetViewState
             (st\<lparr>leafLocationCache :=
                  (if setViewStateOf st l = HookedSetViewState
                   then (leafLocationCache st)(l \<mapsto> fst (isInMainArea st l))
                   else leafLocationCache st)\<rparr>) l vs"
proof (cases "setViewStateOf st l")
  case HostSetViewState
  then show ?thesis by (simp add: callSetViewState_def)
next
  case HookedSetViewState
  with hooked_noIntercept [OF assms] show ?thesis
    by (simp add: callSetViewState_def isInMainArea_snd)
qed

lemma applySettings_explicit:
  assumes "noIntercept st l"
  shows "applySettingsToNewLeaf st l =
     (if CallGetViewState \<in> throwing st then st
      else
        (let current = viewStateOf st l;
             currentQuery = getProp (vs_state current) ''query'';
             desiredState =
               (if rememberQuery (settings st)
                then JObj (ownEntries (lastSearchState (settings st)))
                else JObj (setEntry ''query''
                             (if truthy currentQuery then currentQuery else JStr [])
                             (ownEntries (lastSearchState (settings st)))));
             newState = current\<lparr>vs_state := desiredState\<rparr>;
             st0 = st\<lparr>leafLocationCache :=
                  (if setViewStateOf st l = HookedSetViewState
                   then (leafLocationCache st)(l \<mapsto> fst (isInMainArea st l))
                   else leafLocationCache st),
                   trace := trace st @ [SetViewState l newState]\<rparr>
         in if CallSetViewState \<in> throwing st then st0
            else st0\<lparr>viewStateOf := (viewStateOf st)(l := newState),
                     leafBaselineState := (leafBaselineState st)(l \<mapsto>
                        JSON_stringify (sanitizeSearchStateForPersistence
                          (rememberQuery (settings st)) desiredState)),
                     pendingTasks := pendingTasks st @
                        [(clock st + 100, ReapplyViewState l newState)]\<rparr>))"
  by (simp add: applySettingsToNewLeaf_def callSetViewState_noIntercept [OF assms]
        originalSetViewState_def Let_def)

lemma applySettings_frame:
  assumes "noIntercept st l"
  shows "applySettingsToNewLeaf st l =
           st\<lparr>leafLocationCache := leafLocationCache (applySettingsToNewLeaf st l),
              trace := trace (applySettingsToNewLeaf st l),
              viewStateOf := viewStateOf (applySettingsToNewLeaf st l),
              leafBaselineState := leafBaselineState (applySettingsToNewLeaf st l),
              pendingTasks := pendingTasks (applySettingsToNewLeaf st l)\<rparr>"
  by (simp add: applySettings_explicit [OF assms] Let_def)

lemma applySettings_events:
  assumes "noIntercept st l"
  shows "redirectionEvents (applySettingsToNewLeaf st l) = redirectionEvents st"
  by (simp add: applySettings_explicit [OF assms] Let_def redirectionEvents_def)

lemma noIntercept_cache_True:
  "noIntercept (st\<lparr>leafLocationCache := (leafLocationCache st)(l \<mapsto> True)\<rparr>) l"
  by (simp add: noIntercept_def isInMainArea_again)

lemma applySettings_tasks:
  assumes "noIntercept st l"
  shows "redirectionTasks (applySettingsToNewLeaf st l) = redirectionTasks st"
  by (simp add: applySettings_explicit [OF assms] Let_def redirectionTasks_def)

lemma applySettings_other:
  assumes "noIntercept st l" and "l' \<noteq> l"
  shows "viewStateOf (applySettingsToNewLeaf st l) l' = viewStateOf st l' \<and>
         leafBaselineState (applySettingsToNewLeaf st l) l' = leafBaselineState st l' \<and>
         appliedTo l' (applySettingsToNewLeaf st l) = appliedTo l' st"
  using assms(2) by (simp add: applySettings_explicit [OF assms(1)] Let_def appliedTo_def)

lemma applySettings_unchanged:
  assumes "noIntercept st l"
  shows "clock (applySettingsToNewLeaf st l) = clock st"
    and "isInitialLoad (applySettingsToNewLeaf st l) = isInitialLoad st"
    and "initializationCompleteTime (applySettingsToNewLeaf st l) = initializationCompleteTime st"
    and "lastRedirectionTriggerTime (applySettingsToNewLeaf st l) = lastRedirectionTriggerTime st"
    and "settings (applySettingsToNewLeaf st l) = settings st"
    and "processedLeaves (applySettingsToNewLeaf st l) = processedLeaves st"
    and "leafCreationTime (applySettingsToNewLeaf st l) = leafCreationTime st"
  by (subst applySettings_frame [OF assms], simp)+

lemma startMonitoring_unchanged:
  "clock (startIntelligentMonitoring st l) = clock st"
  "isInitialLoad (startIntelligentMonitoring st l) = isInitialLoad st"
  "initializationCompleteTime (startIntelligentMonitoring st l) = initializationCompleteTime st"
  "lastRedirectionTriggerTime (startIntelligentMonitoring st l) = lastRedirectionTriggerTime st"
  "settings (startIntelligentMonitoring st l) = settings st"
  "processedLeaves (startIntelligentMonitoring st l) = processedLeaves st"
  "leafCreationTime (startIntelligentMonitoring st l) = leafCreationTime st"
  "leafBaselineState (startIntelligentMonitoring st l) = leafBaselineState st"
  "viewStateOf (startIntelligentMonitoring st l) = viewStateOf st"
  "pendingTasks (startIntelligentMonitoring st l) = pendingTasks st"
  "redirectionEvents (startIntelligentMonitoring st l) = redirectionEvents st"
  "redirectionTasks (startIntelligentMonitoring st l) = redirectionTasks st"
  "appliedTo l' (startIntelligentMonitoring st l) = appliedTo l' st"
  by (simp_all add: startIntelligentMonitoring_def Let_def redirectionEvents_def
        redirectionTasks_def appliedTo_def)


text \<open>The two ways \<open>processNewSearchLeaf\<close> ends.\<close>

lemma processNew_cases:
  fixes st l
  defines "st1 \<equiv> st\<lparr>processedLeaves := insert l (processedLeaves st),
                      leafCreationTime := (leafCreationTime st)(l \<mapsto> clock st)\<rparr>"
  obtains
    (redirect) "\<not> isInInitializationGracePeriod st" "openBookmarksInMainArea (settings st)"
      "\<not> fst (isInMainArea st1 l)"
      "processNewSearchLeaf st l =
         triggerRedirection (st1\<lparr>leafLocationCache := (leafLocationCache st)(l \<mapsto> False)\<rparr>)"
  | (keep) c where "noIntercept (st1\<lparr>leafLocationCache := c\<rparr>) l"
      "processNewSearchLeaf st l =
         startIntelligentMonitoring
           (if truthy (lastSearchState (settings st))
            then applySettingsToNewLeaf (st1\<lparr>leafLocationCache := c\<rparr>) l
            else st1\<lparr>leafLocationCache := c\<rparr>) l"
proof (cases "isInInitializationGracePeriod st")
  case True
  have g: "isInInitializationGracePeriod st1"
    using True grace_cong [of st1 st] by (simp add: st1_def)
  have "noIntercept (st1\<lparr>leafLocationCache := leafLocationCache st\<rparr>) l"
    using g by (simp add: noIntercept_def)
  moreover have "processNewSearchLeaf st l =
         startIntelligentMonitoring
           (if truthy (lastSearchState (settings st))
            then applySettingsToNewLeaf (st1\<lparr>leafLocationCache := leafLocationCache st\<rparr>) l
            else st1\<lparr>leafLocationCache := leafLocationCache st\<rparr>) l"
    using g unfolding processNewSearchLeaf_def Let_def st1_def [symmetric]
    by (simp add: st1_def)
  ultimately show ?thesis by (rule keep)
next
  case False
  have ng: "\<not> isInInitializationGracePeriod st1"
    using False grace_cong [of st1 st] by (simp add: st1_def)
  have c1: "leafLocationCache st1 = leafLocationCache st" by (simp add: st1_def)
  have s1: "settings st1 = settings st" by (simp add: st1_def)
  show ?thesis
  proof (cases "openBookmarksInMainArea (settings st)")
    case ob: True
    show ?thesis
    proof (cases "fst (isInMainArea st1 l)")
      case m: True
      have "noIntercept (st1\<lparr>leafLocationCache := (leafLocationCache st1)(l \<mapsto> True)\<rparr>) l"
        by (rule noIntercept_cache_True)
      moreover have "processNewSearchLeaf st l =
         startIntelligentMonitoring
           (if truthy (lastSearchState (settings st))
            then applySettingsToNewLeaf (st1\<lparr>leafLocationCache := (leafLocationCache st1)(l \<mapsto> True)\<rparr>) l
            else st1\<lparr>leafLocationCache := (leafLocationCache st1)(l \<mapsto> True)\<rparr>) l"
        using ng ob m s1 unfolding processNewSearchLeaf_def Let_def st1_def [symmetric]
        by (simp add: case_prod_beta isInMainArea_snd)
      ultimately show ?thesis by (rule keep)
    next
      case m: False
      have "processNewSearchLeaf st l =
         triggerRedirection (st1\<lparr>leafLocationCache := (leafLocationCache st)(l \<mapsto> False)\<rparr>)"
        using ng ob m s1 c1 unfolding processNewSearchLeaf_def Let_def st1_def [symmetric]
        by (simp add: case_prod_beta isInMainArea_snd)
      with False ob m show ?thesis by (rule redirect)
    qed
  next
    case ob: False
    have "noIntercept (st1\<lparr>leafLocationCache := (leafLocationCache st1)(l \<mapsto> fst (isInMainArea st1 l))\<rparr>) l"
      using ob s1 by (simp add: noIntercept_def)
    moreover have "processNewSearchLeaf st l =
         startIntelligentMonitoring
           (if truthy (lastSearchState (settings st))
            then applySettingsToNewLeaf (st1\<lparr>leafLocationCache := (leafLocationCache st1)(l \<mapsto> fst (isInMainArea st1 l))\<rparr>) l
            else st1\<lparr>leafLocationCache := (leafLocationCache st1)(l \<mapsto> fst (isInMainArea st1 l))\<rparr>) l"
      using ng ob s1 unfolding processNewSearchLeaf_def Let_def st1_def [symmetric]
      by (simp add: case_prod_beta isInMainArea_snd)
    ultimately show ?thesis by (rule keep)
  qed
qed


lemma processNew_events:
  "redirectionEvents (processNewSearchLeaf st l) = redirectionEvents st"
proof (cases rule: processNew_cases [of st l])
  case redirect
  then show ?thesis by (simp add: triggerRedirection_def redirectionEvents_def)
next
  case (keep c)
  show ?thesis
    by (simp add: keep(2) startMonitoring_unchanged applySettings_events [OF keep(1)])
       (simp add: redirectionEvents_def)
qed

lemma processNew_tasks:
  "redirectionTasks (processNewSearchLeaf st l) = redirectionTasks st \<or>
   (\<not> isInInitializationGracePeriod st \<and> \<not> shouldPreventDuplicateRedirection st \<and>
    redirectionTasks (processNewSearchLeaf st l) = redirectionTasks st @ [RedirectionPass])"
proof (cases rule: processNew_cases [of st l])
  case redirect
  then show ?thesis
    by (simp add: triggerRedirection_def redirectionTasks_def shouldPreventDuplicateRedirection_def)
next
  case (keep c)
  have "redirectionTasks (processNewSearchLeaf st l) = redirectionTasks st"
    by (simp add: keep(2) startMonitoring_unchanged applySettings_tasks [OF keep(1)])
       (simp add: redirectionTasks_def)
  then show ?thesis by simp
qed

lemma processNew_unchanged:
  "clock (processNewSearchLeaf st l) = clock st"
  "isInitialLoad (processNewSearchLeaf st l) = isInitialLoad st"
  "initializationCompleteTime (processNewSearchLeaf st l) = initializationCompleteTime st"
  "settings (processNewSearchLeaf st l) = settings st"
  "processedLeaves (processNewSearchLeaf st l) = insert l (processedLeaves st)"
proof -
  show "clock (processNewSearchLeaf st l) = clock st"
    by (cases rule: processNew_cases [of st l])
       (simp_all add: triggerRedirection_def startMonitoring_unchanged applySettings_unchanged)
  show "isInitialLoad (processNewSearchLeaf st l) = isInitialLoad st"
    by (cases rule: processNew_cases [of st l])
       (simp_all add: triggerRedirection_def startMonitoring_unchanged applySettings_unchanged)
  show "initializationCompleteTime (processNewSearchLeaf st l) = initializationCompleteTime st"
    by (cases rule: processNew_cases [of st l])
       (simp_all add: triggerRedirection_def startMonitoring_unchanged applySettings_unchanged)
  show "settings (processNewSearchLeaf st l) = settings st"
    by (cases rule: processNew_cases [of st l])
       (simp_all add: triggerRedirection_def startMonitoring_unchanged applySettings_unchanged)
  show "processedLeaves (processNewSearchLeaf st l) = insert l (processedLeaves st)"
    by (cases rule: processNew_cases [of st l])
       (simp_all add: triggerRedirection_def startMonitoring_unchanged applySettings_unchanged)
qed

lemma processNew_lastTrigger:
  "shouldPreventDuplicateRedirection st \<Longrightarrow>
   lastRedirectionTriggerTime (processNewSearchLeaf st l) = lastRedirectionTriggerTime st"
  by (cases rule: processNew_cases [of st l])
     (simp_all add: triggerRedirection_def startMonitoring_unchanged applySettings_unchanged
        shouldPreventDuplicateRedirection_def)

lemma processNew_other:
  assumes "l' \<noteq> l"
  shows "leafBaselineState (processNewSearchLeaf st l) l' = leafBaselineState st l'"
    and "leafCreationTime (processNewSearchLeaf st l) l' = leafCreationTime st l'"
    and "viewStateOf (processNewSearchLeaf st l) l' = viewStateOf st l'"
    and "appliedTo l' (processNewSearchLeaf st l) = appliedTo l' st"
proof -
  show "leafBaselineState (processNewSearchLeaf st l) l' = leafBaselineState st l'"
    by (cases rule: processNew_cases [of st l])
       (simp_all add: triggerRedirection_def startMonitoring_unchanged
          applySettings_other [OF _ assms])
  show "leafCreationTime (processNewSearchLeaf st l) l' = leafCreationTime st l'"
    using assms
    by (cases rule: processNew_cases [of st l])
       (simp_all add: triggerRedirection_def startMonitoring_unchanged applySettings_unchanged)
  show "viewStateOf (processNewSearchLeaf st l) l' = viewStateOf st l'"
    by (cases rule: processNew_cases [of st l])
       (simp_all add: triggerRedirection_def startMonitoring_unchanged
          applySettings_other [OF _ assms])
  show "appliedTo l' (processNewSearchLeaf st l) = appliedTo l' st"
    by (cases rule: processNew_cases [of st l])
       (simp_all add: triggerRedirection_def startMonitoring_unchanged
          applySettings_other [OF _ assms], simp_all add: appliedTo_def)
qed

lemma processNew_no_baseline:
  "\<not> truthy (lastSearchState (settings st)) \<Longrightarrow>
   leafBaselineState (processNewSearchLeaf st l) = leafBaselineState st"
  by (cases rule: processNew_cases [of st l])
     (simp_all add: triggerRedirection_def startMonitoring_unchanged)


subsection \<open>The two lifecycle handlers\<close>

lemma shouldPrevent_cong:
  "clock st' = clock st \<Longrightarrow> lastRedirectionTriggerTime st' = lastRedirectionTriggerTime st \<Longrightarrow>
   shouldPreventDuplicateRedirection st' = shouldPreventDuplicateRedirection st"
  by (simp add: shouldPreventDuplicateRedirection_def)

lemma processNew_grace:
  "isInInitializationGracePeriod (processNewSearchLeaf st l) = isInInitializationGracePeriod st"
  by (rule grace_cong) (simp_all add: processNew_unchanged)

lemma processNew_shouldPrevent:
  "shouldPreventDuplicateRedirection st \<Longrightarrow>
   shouldPreventDuplicateRedirection (processNewSearchLeaf st l)"
  using shouldPrevent_cong [of "processNewSearchLeaf st l" st]
  by (simp add: processNew_unchanged processNew_lastTrigger)

lemma processNewLeaves_quiet:
  "isInInitializationGracePeriod st \<or> shouldPreventDuplicateRedirection st \<Longrightarrow>
   redirectionEvents (processNewLeaves st ls) = redirectionEvents st \<and>
   redirectionTasks (processNewLeaves st ls) = redirectionTasks st"
proof (induction ls arbitrary: st)
  case Nil
  then show ?case by simp
next
  case (Cons l ls)
  show ?case
  proof (cases "l \<in> processedLeaves st")
    case True
    with Cons show ?thesis by simp
  next
    case False
    have q: "isInInitializationGracePeriod (processNewSearchLeaf st l) \<or>
             shouldPreventDuplicateRedirection (processNewSearchLeaf st l)"
      using Cons.prems processNew_grace [of st l] processNew_shouldPrevent [of st l] by blast
    have t: "redirectionTasks (processNewSearchLeaf st l) = redirectionTasks st"
      using Cons.prems processNew_tasks [of st l] by blast
    show ?thesis
      using False Cons.IH [OF q] t by (simp add: processNew_events)
  qed
qed

lemma processNewLeaves_marked:
  "l \<in> processedLeaves st \<Longrightarrow>
   l \<in> processedLeaves (processNewLeaves st ls) \<and>
   appliedTo l (processNewLeaves st ls) = appliedTo l st \<and>
   leafBaselineState (processNewLeaves st ls) l = leafBaselineState st l \<and>
   leafCreationTime (processNewLeaves st ls) l = leafCreationTime st l \<and>
   viewStateOf (processNewLeaves st ls) l = viewStateOf st l"
proof (induction ls arbitrary: st)
  case Nil
  then show ?case by simp
next
  case (Cons l2 ls)
  show ?case
  proof (cases "l2 \<in> processedLeaves st")
    case True
    with Cons show ?thesis by simp
  next
    case False
    with Cons.prems have ne: "l \<noteq> l2" by blast
    have m: "l \<in> processedLeaves (processNewSearchLeaf st l2)"
      using Cons.prems by (simp add: processNew_unchanged)
    show ?thesis
      using False Cons.IH [OF m] by (simp add: processNew_other [OF ne])
  qed
qed

lemma monitorLeaf_unchanged:
  "trace (monitorLeafViewState st l) = trace st"
  "pendingTasks (monitorLeafViewState st l) = pendingTasks st"
  "processedLeaves (monitorLeafViewState st l) = processedLeaves st"
  "leafBaselineState (monitorLeafViewState st l) = leafBaselineState st"
  "leafCreationTime (monitorLeafViewState st l) = leafCreationTime st"
  "viewStateOf (monitorLeafViewState st l) = viewStateOf st"
  by (simp_all add: monitorLeafViewState_def)

lemma monitorSidebarLeaves_unchanged:
  "trace (monitorSidebarLeaves st ls) = trace st \<and>
   pendingTasks (monitorSidebarLeaves st ls) = pendingTasks st \<and>
   processedLeaves (monitorSidebarLeaves st ls) = processedLeaves st \<and>
   leafBaselineState (monitorSidebarLeaves st ls) = leafBaselineState st \<and>
   leafCreationTime (monitorSidebarLeaves st ls) = leafCreationTime st \<and>
   viewStateOf (monitorSidebarLeaves st ls) = viewStateOf st"
proof (induction ls arbitrary: st)
  case Nil
  then show ?case by simp
next
  case (Cons l ls)
  show ?case
    by (simp add: case_prod_beta Cons.IH monitorLeaf_unchanged isInMainArea_snd)
qed

lemma monitorNew_unchanged:
  "trace (monitorNewSidebarLeaves st) = trace st"
  "pendingTasks (monitorNewSidebarLeaves st) = pendingTasks st"
  "processedLeaves (monitorNewSidebarLeaves st) = processedLeaves st"
  "leafBaselineState (monitorNewSidebarLeaves st) = leafBaselineState st"
  "leafCreationTime (monitorNewSidebarLeaves st) = leafCreationTime st"
  "viewStateOf (monitorNewSidebarLeaves st) = viewStateOf st"
  by (simp_all add: monitorNewSidebarLeaves_def Let_def clearLocationCache_def
        monitorSidebarLeaves_unchanged)

lemma layoutChange_quiet:
  assumes "isInInitializationGracePeriod st \<or> shouldPreventDuplicateRedirection st"
  shows "redirectionEvents (deliver st LayoutChange) = redirectionEvents st \<and>
         redirectionTasks (deliver st LayoutChange) = redirectionTasks st"
proof -
  let ?st1 = "clearLocationCache st"
  have q: "isInInitializationGracePeriod ?st1 \<or> shouldPreventDuplicateRedirection ?st1"
    using assms grace_cong [of ?st1 st] shouldPrevent_cong [of ?st1 st]
    by (simp add: clearLocationCache_def)
  have c: "redirectionEvents ?st1 = redirectionEvents st" "redirectionTasks ?st1 = redirectionTasks st"
    by (simp_all add: clearLocationCache_def redirectionEvents_def redirectionTasks_def)
  have h: "redirectionEvents (handleLayoutChanges st) = redirectionEvents st \<and>
           redirectionTasks (handleLayoutChanges st) = redirectionTasks st"
    using processNewLeaves_quiet [OF q] c by (simp add: handleLayoutChanges_def Let_def)
  have m: "redirectionEvents (monitorNewSidebarLeaves (handleLayoutChanges st))
             = redirectionEvents (handleLayoutChanges st)"
          "redirectionTasks (monitorNewSidebarLeaves (handleLayoutChanges st))
             = redirectionTasks (handleLayoutChanges st)"
    by (simp_all add: redirectionEvents_def redirectionTasks_def monitorNew_unchanged)
  show ?thesis using h m by (simp add: Let_def)
qed

lemma layoutChange_marked:
  assumes "l \<in> processedLeaves st"
  shows "l \<in> processedLeaves (deliver st LayoutChange) \<and>
         appliedTo l (deliver st LayoutChange) = appliedTo l st \<and>
         leafBaselineState (deliver st LayoutChange) l = leafBaselineState st l \<and>
         leafCreationTime (deliver st LayoutChange) l = leafCreationTime st l \<and>
         viewStateOf (deliver st LayoutChange) l = viewStateOf st l"
proof -
  let ?st1 = "clearLocationCache st"
  have p: "l \<in> processedLeaves ?st1" using assms by (simp add: clearLocationCache_def)
  have c: "appliedTo l ?st1 = appliedTo l st" "leafBaselineState ?st1 = leafBaselineState st"
          "leafCreationTime ?st1 = leafCreationTime st" "viewStateOf ?st1 = viewStateOf st"
    by (simp_all add: clearLocationCache_def appliedTo_def)
  have h: "l \<in> processedLeaves (handleLayoutChanges st) \<and>
         appliedTo l (handleLayoutChanges st) = appliedTo l st \<and>
         leafBaselineState (handleLayoutChanges st) l = leafBaselineState st l \<and>
         leafCreationTime (handleLayoutChanges st) l = leafCreationTime st l \<and>
         viewStateOf (handleLayoutChanges st) l = viewStateOf st l"
    using processNewLeaves_marked [OF p] c p by (simp add: handleLayoutChanges_def Let_def)
  have m: "appliedTo l (monitorNewSidebarLeaves (handleLayoutChanges st))
             = appliedTo l (handleLayoutChanges st)"
    by (simp add: appliedTo_def monitorNew_unchanged)
  show ?thesis using h m assms by (simp add: Let_def monitorNew_unchanged)
qed

lemma handleExisting_explicit:
  "handleExistingSearchLeafActivation st l =
     (if isInInitializationGracePeriod st then st
      else if openBookmarksInMainArea (settings st) \<and> \<not> fst (isInMainArea st l)
           then triggerRedirection (snd (isInMainArea st l))
           else snd (isInMainArea st l))"
  by (simp add: handleExistingSearchLeafActivation_def case_prod_beta)

lemma activeLeafChange_quiet:
  assumes "isInInitializationGracePeriod st \<or> shouldPreventDuplicateRedirection st"
  shows "redirectionEvents (deliver st ActiveLeafChange) = redirectionEvents st \<and>
         redirectionTasks (deliver st ActiveLeafChange) = redirectionTasks st"
proof -
  have "redirectionEvents (handleExistingSearchLeafActivation (st\<lparr>leafLocationCache := c\<rparr>) l)
          = redirectionEvents st \<and>
        redirectionTasks (handleExistingSearchLeafActivation (st\<lparr>leafLocationCache := c\<rparr>) l)
          = redirectionTasks st" for c l
    using assms
    by (auto simp: handleExisting_explicit isInMainArea_snd triggerRedirection_def
          redirectionEvents_def redirectionTasks_def shouldPreventDuplicateRedirection_def)
  then show ?thesis
    by (auto simp: handleActiveLeafChanges_def case_prod_beta isInMainArea_snd
          redirectionEvents_def redirectionTasks_def split: option.splits)
qed

lemma setViewStateCalled_grace:
  assumes "isInInitializationGracePeriod st"
  shows "redirectionEvents (deliver st (SetViewStateCalled l vs)) = redirectionEvents st \<and>
         redirectionTasks (deliver st (SetViewStateCalled l vs)) = redirectionTasks st \<and>
         appliedTo l (deliver st (SetViewStateCalled l vs)) = appliedTo l st @ [SetViewState l vs]"
proof -
  have n: "noIntercept st l" using assms by (simp add: noIntercept_def)
  show ?thesis
    by (simp add: callSetViewState_noIntercept [OF n] originalSetViewState_def Let_def
          redirectionEvents_def redirectionTasks_def appliedTo_def)
qed


lemma activeLeafChange_trace: "trace (deliver st ActiveLeafChange) = trace st"
  by (auto simp: handleActiveLeafChanges_def handleExisting_explicit case_prod_beta
        isInMainArea_snd triggerRedirection_def split: option.splits)

text \<open>
  C2 (amended). While the grace period runs, the layout-change handler, the
  active-leaf-change handler and a call of a leaf's \<open>setViewState\<close> (hooked or not) leave
  no footprint of redirection: no leaf is hidden, no tab is requested, no leaf is
  detached, and no pass, detach or tab creation is queued, whatever the settings. A
  \<open>setViewState\<close> call reaches the host's setter. The command hook is not among these
  paths: it does not consult the grace period.
\<close>

theorem grace_suppresses_redirection:
  "isInInitializationGracePeriod st \<longrightarrow>
     redirectionEvents (deliver st LayoutChange) = redirectionEvents st \<and>
     redirectionTasks (deliver st LayoutChange) = redirectionTasks st \<and>
     redirectionEvents (deliver st ActiveLeafChange) = redirectionEvents st \<and>
     redirectionTasks (deliver st ActiveLeafChange) = redirectionTasks st \<and>
     redirectionEvents (deliver st (SetViewStateCalled leaf vs)) = redirectionEvents st \<and>
     redirectionTasks (deliver st (SetViewStateCalled leaf vs)) = redirectionTasks st \<and>
     appliedTo leaf (deliver st (SetViewStateCalled leaf vs))
       = appliedTo leaf st @ [SetViewState leaf vs]"
  using layoutChange_quiet [of st] activeLeafChange_quiet [of st]
        setViewStateCalled_grace [of st leaf vs]
  by blast

theorem grace_suppresses_redirection_witness:
  "isInInitializationGracePeriod restoredLeafWorld \<and>
   openBookmarksInMainArea (settings restoredLeafWorld) \<and>
   fst (isInMainArea restoredLeafWorld 2) = False \<and>
   2 \<notin> processedLeaves restoredLeafWorld \<and>
   2 \<in> processedLeaves (deliver restoredLeafWorld LayoutChange) \<and>
   redirectionEvents (deliver restoredLeafWorld LayoutChange) = [] \<and>
   redirectionTasks (deliver restoredLeafWorld LayoutChange) = [] \<and>
   appliedTo 1 (deliver restoredLeafWorld (SetViewStateCalled 1 (searchView JNull)))
     = [SetViewState 1 (searchView JNull)]"
  using grace_suppresses_redirection [of restoredLeafWorld 1 "searchView JNull"]
  by code_simp

text \<open>
  C2 as stated fails on the command path: 100ms after startup, inside the grace period,
  the search command makes the hook queue a pass, and the pass hides the peripheral
  search leaf 1, requests the replacement tab and queues the detach.
\<close>

theorem grace_command_counterexample:
  "isInInitializationGracePeriod graceCommandWorld \<and>
   redirectionEvents loadedSidebarWorld = [] \<and>
   redirectionEvents graceCommandWorld = [HideContainer 1, GetLeafTab] \<and>
   redirectionTasks graceCommandWorld = [FinishCreate 100, DetachLeaf 1]"
  by code_simp


text \<open>
  C1 (amended). A leaf that carries the processed mark is skipped by the layout-change
  handler: it keeps the mark, the host's \<open>setViewState\<close> is not called on it, and its
  baseline, creation time and view state stay as they are. The active-leaf-change
  handler never applies a state either. Nothing is claimed about redirection: the mark
  does not shield a peripheral leaf from it.
\<close>

theorem marked_leaf_not_reapplied:
  "l \<in> processedLeaves st \<longrightarrow>
     l \<in> processedLeaves (deliver st LayoutChange) \<and>
     appliedTo l (deliver st LayoutChange) = appliedTo l st \<and>
     leafBaselineState (deliver st LayoutChange) l = leafBaselineState st l \<and>
     leafCreationTime (deliver st LayoutChange) l = leafCreationTime st l \<and>
     viewStateOf (deliver st LayoutChange) l = viewStateOf st l \<and>
     appliedTo l (deliver st ActiveLeafChange) = appliedTo l st"
proof
  assume m: "l \<in> processedLeaves st"
  have "appliedTo l (deliver st ActiveLeafChange) = appliedTo l st"
    unfolding appliedTo_def by (simp only: activeLeafChange_trace)
  with layoutChange_marked [OF m]
  show "l \<in> processedLeaves (deliver st LayoutChange) \<and>
     appliedTo l (deliver st LayoutChange) = appliedTo l st \<and>
     leafBaselineState (deliver st LayoutChange) l = leafBaselineState st l \<and>
     leafCreationTime (deliver st LayoutChange) l = leafCreationTime st l \<and>
     viewStateOf (deliver st LayoutChange) l = viewStateOf st l \<and>
     appliedTo l (deliver st ActiveLeafChange) = appliedTo l st"
    by blast
qed

theorem marked_leaf_not_reapplied_witness:
  "1 \<in> processedLeaves restoredLeafWorld \<and>
   2 \<notin> processedLeaves restoredLeafWorld \<and>
   processedLeaves (deliver restoredLeafWorld LayoutChange) = {1, 2} \<and>
   appliedTo 1 (deliver restoredLeafWorld LayoutChange) = [] \<and>
   leafBaselineState (deliver restoredLeafWorld LayoutChange) 1 = None \<and>
   leafCreationTime (deliver restoredLeafWorld LayoutChange) 1 = Some 1000000 \<and>
   leafCreationTime (deliver restoredLeafWorld LayoutChange) 2 = Some 1000500"
  using marked_leaf_not_reapplied [of 1 restoredLeafWorld]
  by code_simp

text \<open>
  C1 as stated fails: leaf 1 was marked processed during startup; when the user
  activates it three seconds later, the activation handler (which acts on marked leaves
  only) triggers a pass, and the pass hands leaf 1 to the redirection engine.
\<close>

theorem marked_leaf_redirected_counterexample:
  "1 \<in> processedLeaves loadedSidebarWorld \<and>
   trace loadedSidebarWorld = [SetInterval 1 1] \<and>
   trace reactivatedWorld =
     [SetInterval 1 1, HideContainer 1, GetLeafTab,
      SetViewState 100 \<lparr> vs_type = ''search'', vs_active = True,
                          vs_state = JObj [(''query'', JStr ''todo'')] \<rparr>] \<and>
   pendingTasks reactivatedWorld = [(1003010, FinishCreate 100), (1003020, DetachLeaf 1)]"
  by code_simp

text \<open>
  C3 (amended). A trigger through \<open>triggerRedirection\<close>, which the layout-change and
  active-leaf-change handlers use, is dropped when it comes less than 500ms after the
  last trigger that went through: \<open>triggerRedirection\<close> changes nothing and neither
  handler queues a pass. Otherwise it queues one pass and records the time, and every
  trigger less than 500ms later meets the suppression test. The command hook and the
  hooked \<open>setViewState\<close> do not go through \<open>triggerRedirection\<close>.
\<close>

theorem duplicate_trigger_suppression:
  "(shouldPreventDuplicateRedirection st \<longrightarrow>
      triggerRedirection st = st \<and>
      redirectionTasks (deliver st LayoutChange) = redirectionTasks st \<and>
      redirectionTasks (deliver st ActiveLeafChange) = redirectionTasks st) \<and>
   (\<not> shouldPreventDuplicateRedirection st \<longrightarrow>
      pendingTasks (triggerRedirection st) = pendingTasks st @ [(clock st + 10, RedirectionPass)] \<and>
      lastRedirectionTriggerTime (triggerRedirection st) = clock st \<and>
      (\<forall>d<500. shouldPreventDuplicateRedirection ((triggerRedirection st)\<lparr>clock := clock st + d\<rparr>)))"
proof (intro conjI impI)
  assume p: "shouldPreventDuplicateRedirection st"
  then show "triggerRedirection st = st" by (simp add: triggerRedirection_def)
  from p show "redirectionTasks (deliver st LayoutChange) = redirectionTasks st"
    using layoutChange_quiet [of st] by blast
  from p show "redirectionTasks (deliver st ActiveLeafChange) = redirectionTasks st"
    using activeLeafChange_quiet [of st] by blast
next
  assume n: "\<not> shouldPreventDuplicateRedirection st"
  then show "pendingTasks (triggerRedirection st) = pendingTasks st @ [(clock st + 10, RedirectionPass)]"
    by (simp add: triggerRedirection_def)
  from n show "lastRedirectionTriggerTime (triggerRedirection st) = clock st"
    by (simp add: triggerRedirection_def)
  from n show "\<forall>d<500. shouldPreventDuplicateRedirection ((triggerRedirection st)\<lparr>clock := clock st + d\<rparr>)"
    by (simp add: triggerRedirection_def shouldPreventDuplicateRedirection_def)
qed

theorem duplicate_trigger_suppression_witness:
  "\<not> shouldPreventDuplicateRedirection (loadedSidebarWorld\<lparr>activeLeaf := Some 1, clock := 1003000\<rparr>) \<and>
   pendingTasks (deliver (loadedSidebarWorld\<lparr>activeLeaf := Some 1, clock := 1003000\<rparr>) ActiveLeafChange)
     = [(1003010, RedirectionPass)] \<and>
   shouldPreventDuplicateRedirection
     ((deliver (loadedSidebarWorld\<lparr>activeLeaf := Some 1, clock := 1003000\<rparr>) ActiveLeafChange)\<lparr>clock := 1003499\<rparr>) \<and>
   pendingTasks (deliver
     ((deliver (loadedSidebarWorld\<lparr>activeLeaf := Some 1, clock := 1003000\<rparr>) ActiveLeafChange)\<lparr>clock := 1003499\<rparr>)
     ActiveLeafChange) = [(1003010, RedirectionPass)]"
proof -
  have concrete:
    "\<not> shouldPreventDuplicateRedirection (loadedSidebarWorld\<lparr>activeLeaf := Some 1, clock := 1003000\<rparr>) \<and>
     pendingTasks (deliver (loadedSidebarWorld\<lparr>activeLeaf := Some 1, clock := 1003000\<rparr>) ActiveLeafChange)
       = [(1003010, RedirectionPass)] \<and>
     shouldPreventDuplicateRedirection
       ((deliver (loadedSidebarWorld\<lparr>activeLeaf := Some 1, clock := 1003000\<rparr>) ActiveLeafChange)\<lparr>clock := 1003499\<rparr>) \<and>
     pendingTasks (deliver
       ((deliver (loadedSidebarWorld\<lparr>activeLeaf := Some 1, clock := 1003000\<rparr>) ActiveLeafChange)\<lparr>clock := 1003499\<rparr>)
       ActiveLeafChange) = [(1003010, RedirectionPass)]"
    by code_simp
  show ?thesis
    using duplicate_trigger_suppression [of "loadedSidebarWorld\<lparr>activeLeaf := Some 1, clock := 1003000\<rparr>"]
          duplicate_trigger_suppression
            [of "(deliver (loadedSidebarWorld\<lparr>activeLeaf := Some 1, clock := 1003000\<rparr>) ActiveLeafChange)\<lparr>clock := 1003499\<rparr>"]
          concrete
    by blast
qed

text \<open>
  C3 as stated fails on the command path: two search commands 1ms apart both get their
  pass, and both passes hand leaf 1 to the redirection engine (two tabs are requested).
\<close>

theorem duplicate_command_counterexample:
  "redirectionEvents twoCommandsWorld = [HideContainer 1, GetLeafTab, HideContainer 1, GetLeafTab] \<and>
   pendingTasks twoCommandsWorld =
     [(1003000, FinishCreate 100), (1003010, DetachLeaf 1),
      (1003001, FinishCreate 101), (1003011, DetachLeaf 1)]"
  by code_simp

section \<open>Properties of the redirection engine\<close>

lemma create_effects:
  "\<exists>evs ts.
     trace (createSearchTabInMainArea st q s) = trace st @ GetLeafTab # evs \<and>
     (evs = [] \<or> (\<exists>vs. evs = [SetViewState (freshLeaf st) vs])) \<and>
     pendingTasks (createSearchTabInMainArea st q s) = pendingTasks st @ ts \<and>
     (ts = [] \<or> ts = [(clock st, FinishCreate (freshLeaf st))]) \<and>
     clock (createSearchTabInMainArea st q s) = clock st"
  by (auto simp: createSearchTabInMainArea_def originalSetViewState_def Let_def
        split: option.splits)

lemma create_success:
  assumes "throwing st = {}" and "s = JObj kvs"
  shows "trace (createSearchTabInMainArea st (queryString s) s) =
           trace st @ [GetLeafTab,
             SetViewState (freshLeaf st)
               \<lparr> vs_type = ''search'', vs_active = True,
                 vs_state = JObj (if queryString s \<noteq> []
                                  then setEntry ''query'' (JStr (queryString s)) kvs
                                  else kvs) \<rparr>]"
    and "pendingTasks (createSearchTabInMainArea st (queryString s) s) =
           pendingTasks st @ [(clock st, FinishCreate (freshLeaf st))]"
  using assms
  by (auto simp: createSearchTabInMainArea_def originalSetViewState_def Let_def)

subsection \<open>The trace only grows\<close>

lemma traceExtends_refl: "traceExtends st st"
  by (simp add: traceExtends_def)

lemma traceExtends_same: "trace st' = trace st \<Longrightarrow> traceExtends st st'"
  by (simp add: traceExtends_def)

lemma traceExtends_trans: "traceExtends a b \<Longrightarrow> traceExtends b c \<Longrightarrow> traceExtends a c"
  by (auto simp: traceExtends_def)

lemma traceExtends_from_same: "trace a = trace b \<Longrightarrow> traceExtends b c \<Longrightarrow> traceExtends a c"
  by (simp add: traceExtends_def)

lemma isInMainArea_trace: "trace (snd (isInMainArea st l)) = trace st"
  by (simp add: isInMainArea_snd)

lemma sidebarLeaves_trace: "trace (snd (sidebarLeaves st ls)) = trace st"
  by (induction ls arbitrary: st) (simp_all add: case_prod_beta isInMainArea_snd)

lemma originalSetViewState_extends: "traceExtends st (snd (originalSetViewState st l vs))"
  by (simp add: traceExtends_def originalSetViewState_def Let_def)

lemma create_extends: "traceExtends st (createSearchTabInMainArea st q s)"
  using create_effects [of st q s] by (auto simp: traceExtends_def)

lemma finishCreate_extends: "traceExtends st (finishCreate st l)"
  by (simp add: traceExtends_def finishCreate_def Let_def)

lemma redirect_extends: "traceExtends st (redirectSidebarSearchToMainArea st l)"
proof (cases "CallGetViewState \<in> throwing st")
  case True
  then show ?thesis by (simp add: traceExtends_def redirectSidebarSearchToMainArea_def Let_def)
next
  case False
  define st2 where "st2 = st\<lparr>processedLeaves := insert l (processedLeaves st),
                              trace := trace st @ [HideContainer l]\<rparr>"
  have a: "traceExtends st st2" by (simp add: traceExtends_def st2_def)
  have b: "traceExtends st2
             (createSearchTabInMainArea st2 (queryString (vs_state (viewStateOf st l)))
                (vs_state (viewStateOf st l)))"
    by (rule create_extends)
  have c: "trace (redirectSidebarSearchToMainArea st l) =
           trace (createSearchTabInMainArea st2 (queryString (vs_state (viewStateOf st l)))
                (vs_state (viewStateOf st l)))"
    using False by (simp add: redirectSidebarSearchToMainArea_def Let_def st2_def)
  from traceExtends_trans [OF a b] c show ?thesis by (simp add: traceExtends_def)
qed

lemma detachLeaf_extends: "traceExtends st (detachLeaf st l)"
  by (simp add: traceExtends_def detachLeaf_def Let_def)

lemma handleSearchCommandExecution_extends: "traceExtends st (handleSearchCommandExecution st)"
proof -
  have t: "trace (snd (sidebarLeaves st (getLeavesOfType st ''search''))) = trace st"
    by (rule sidebarLeaves_trace)
  show ?thesis
  proof (cases "fst (sidebarLeaves st (getLeavesOfType st ''search''))")
    case Nil
    then show ?thesis
      using t by (simp add: handleSearchCommandExecution_def case_prod_beta traceExtends_def)
  next
    case (Cons target others)
    then have "handleSearchCommandExecution st =
                 redirectSidebarSearchToMainArea
                   (snd (sidebarLeaves st (getLeavesOfType st ''search''))) target"
      by (simp add: handleSearchCommandExecution_def case_prod_beta)
    with redirect_extends [of "snd (sidebarLeaves st (getLeavesOfType st ''search''))" target] t
    show ?thesis by (simp add: traceExtends_def)
  qed
qed

lemma hookedSetViewState_extends: "traceExtends st (snd (hookedSetViewState st l vs))"
proof -
  let ?st1 = "snd (isInMainArea st l)"
  have t: "trace ?st1 = trace st" by (rule isInMainArea_trace)
  have "traceExtends ?st1 (snd (hookedSetViewState st l vs))"
    unfolding hookedSetViewState_def case_prod_beta Let_def
    by (simp add: create_extends originalSetViewState_extends)
  with t show ?thesis by (simp add: traceExtends_def)
qed

lemma callSetViewState_extends: "traceExtends st (snd (callSetViewState st l vs))"
  by (cases "setViewStateOf st l")
     (simp_all add: callSetViewState_def originalSetViewState_extends hookedSetViewState_extends)

lemma hookedExecuteCommand_extends: "traceExtends st (hookedExecuteCommand st c)"
  using sidebarLeaves_trace [of st "getLeavesOfType st ''search''"]
  by (simp add: hookedExecuteCommand_def case_prod_beta Let_def traceExtends_def)

lemma applySettings_extends: "traceExtends st (applySettingsToNewLeaf st l)"
proof (cases "CallGetViewState \<in> throwing st")
  case True
  then show ?thesis by (simp add: applySettingsToNewLeaf_def traceExtends_def)
next
  case False
  have "\<exists>vs. trace (applySettingsToNewLeaf st l) = trace (snd (callSetViewState st l vs))"
    using False
    by (auto simp: applySettingsToNewLeaf_def Let_def case_prod_beta)
  then obtain vs where "trace (applySettingsToNewLeaf st l) = trace (snd (callSetViewState st l vs))"
    by blast
  with callSetViewState_extends [of st l vs] show ?thesis by (simp add: traceExtends_def)
qed

lemma startMonitoring_extends: "traceExtends st (startIntelligentMonitoring st l)"
  by (simp add: traceExtends_def startIntelligentMonitoring_def Let_def)

lemma saveSettings_extends: "traceExtends st (snd (saveSettings st))"
  by (simp add: traceExtends_def saveSettings_def Let_def)

lemma monitor_extends: "traceExtends st (monitor st l)"
  by (simp add: traceExtends_def monitor_def Let_def cleanupLeafTracking_def clearIntervalById_def
        saveSettings_def split: option.splits)

lemma processNew_extends: "traceExtends st (processNewSearchLeaf st l)"
proof (cases rule: processNew_cases [of st l])
  case redirect
  then show ?thesis by (simp add: traceExtends_def triggerRedirection_def)
next
  case (keep c)
  let ?st2 = "st\<lparr>processedLeaves := insert l (processedLeaves st),
                  leafCreationTime := (leafCreationTime st)(l \<mapsto> clock st),
                  leafLocationCache := c\<rparr>"
  have a: "traceExtends st ?st2" by (simp add: traceExtends_def)
  have b: "traceExtends ?st2 (if truthy (lastSearchState (settings st))
            then applySettingsToNewLeaf ?st2 l else ?st2)"
    by (simp add: applySettings_extends traceExtends_refl)
  show ?thesis
    unfolding keep(2)
    by (rule traceExtends_trans [OF traceExtends_trans [OF a b] startMonitoring_extends])
qed

lemma processNewLeaves_extends: "traceExtends st (processNewLeaves st ls)"
proof (induction ls arbitrary: st)
  case Nil
  show ?case by (simp add: traceExtends_refl)
next
  case (Cons l ls)
  show ?case
    using Cons [of "processNewSearchLeaf st l"] Cons [of st] processNew_extends [of st l]
    by (auto intro: traceExtends_trans)
qed

lemma monitorSidebarLeaves_trace: "trace (monitorSidebarLeaves st ls) = trace st"
  by (simp add: monitorSidebarLeaves_unchanged)

lemma layoutChange_extends: "traceExtends st (deliver st LayoutChange)"
proof -
  have a: "traceExtends st (handleLayoutChanges st)"
    using processNewLeaves_extends [of "clearLocationCache st"]
    by (simp add: handleLayoutChanges_def Let_def traceExtends_def clearLocationCache_def)
  have b: "trace (monitorNewSidebarLeaves (handleLayoutChanges st)) = trace (handleLayoutChanges st)"
    by (simp add: monitorNew_unchanged)
  show ?thesis using a b by (simp add: Let_def traceExtends_def)
qed

lemma openPinned_extends: "traceExtends st (openPinnedSearchWithLastState st)"
  by (simp add: traceExtends_def openPinnedSearchWithLastState_def originalSetViewState_def Let_def)

lemma foldl_detach_extends: "traceExtends st (foldl detachLeaf st ls)"
proof (induction ls arbitrary: st)
  case Nil
  show ?case by (simp add: traceExtends_refl)
next
  case (Cons l ls)
  show ?case
    using Cons [of "detachLeaf st l"] detachLeaf_extends [of st l]
    by (auto intro: traceExtends_trans)
qed

lemma startupCleanup_extends: "traceExtends st (performStartupCleanup st)"
  using foldl_detach_extends [of "snd (sidebarLeaves st (getLeavesOfType st ''search''))"]
        sidebarLeaves_trace [of st "getLeavesOfType st ''search''"]
  by (simp add: performStartupCleanup_def case_prod_beta traceExtends_def)

lemma runTask_extends: "traceExtends st (runTask st t)"
  by (cases t)
     (simp_all add: handleSearchCommandExecution_extends detachLeaf_extends
        callSetViewState_extends finishCreate_extends startupCleanup_extends,
      simp add: traceExtends_def)

lemma deliver_extends: "traceExtends st (deliver st s)"
proof (cases s)
  case (TimePasses d)
  then show ?thesis by (simp add: traceExtends_def)
next
  case (ViewReports l v)
  then show ?thesis by (simp add: traceExtends_def)
next
  case LayoutChange
  then show ?thesis by (simp only: layoutChange_extends)
next
  case ActiveLeafChange
  then show ?thesis using activeLeafChange_trace [of st] by (simp only: traceExtends_same)
next
  case (IntervalFires i)
  then show ?thesis by (simp add: monitor_extends traceExtends_refl split: option.splits)
next
  case (TaskRuns k)
  have "traceExtends (st\<lparr>pendingTasks := p\<rparr>) (runTask (st\<lparr>pendingTasks := p\<rparr>) t) \<Longrightarrow>
        traceExtends st (runTask (st\<lparr>pendingTasks := p\<rparr>) t)" for p t
    by (simp add: traceExtends_def)
  with TaskRuns show ?thesis by (simp add: runTask_extends traceExtends_refl)
next
  case (CommandDispatched c)
  then show ?thesis
    by (simp add: callExecuteCommand_def hookedExecuteCommand_extends traceExtends_refl
          split: dispatcher.splits)
next
  case (SetViewStateCalled l vs)
  then show ?thesis by (simp add: callSetViewState_extends)
next
  case (PluginCommand c)
  have sv: "traceExtends st (snd (saveSettings (st\<lparr>settings := x\<rparr>)))" for x
    by (simp add: traceExtends_def saveSettings_def Let_def)
  from PluginCommand show ?thesis
    by (cases c)
       (simp_all add: openPinned_extends traceExtends_refl saveCurrentSearchState_def
          clearSavedSearchState_def sv split: option.splits)
qed

lemma run_extends: "traceExtends st (run st ss)"
  unfolding run_def
proof (induction ss arbitrary: st)
  case Nil
  show ?case by (simp add: traceExtends_refl)
next
  case (Cons s ss)
  show ?case
    using Cons [of "deliver st s"] deliver_extends [of st s]
    by (auto intro: traceExtends_trans)
qed

text \<open>
  C7. Whenever the redirection engine runs on a leaf, it first hides the leaf. If reading
  the leaf's view state throws, nothing else happens: no tab is requested and no detach
  is queued. Otherwise the request for the replacement tab (\<open>getLeaf("tab")\<close>, followed
  by the \<open>setViewState\<close> call when the request succeeded) is in the trace before the
  function returns, no detach of the leaf has happened by then, and the detach is the
  last callback the function queues, due 10ms later; only when that callback runs is
  the leaf detached. Whatever happens afterwards, the trace at the return of the
  function stays a prefix of the trace, so the detach comes after the request. When no
  host call throws and the leaf reports a state object, the replacement is given that
  state, with a non-empty query converted to a string.
\<close>

theorem redirect_requests_before_detach:
  "trace (runTask (redirectSidebarSearchToMainArea st leaf) (DetachLeaf leaf)) =
     trace (redirectSidebarSearchToMainArea st leaf) @ [Detach leaf] \<and>
   traceExtends (redirectSidebarSearchToMainArea st leaf)
     (run (redirectSidebarSearchToMainArea st leaf) stimuli) \<and>
   (CallGetViewState \<in> throwing st \<longrightarrow>
      trace (redirectSidebarSearchToMainArea st leaf) = trace st @ [HideContainer leaf] \<and>
      pendingTasks (redirectSidebarSearchToMainArea st leaf) = pendingTasks st) \<and>
   (CallGetViewState \<notin> throwing st \<longrightarrow>
      (\<exists>evs ts.
         trace (redirectSidebarSearchToMainArea st leaf) =
           trace st @ [HideContainer leaf, GetLeafTab] @ evs \<and>
         (evs = [] \<or> (\<exists>vs. evs = [SetViewState (freshLeaf st) vs])) \<and>
         pendingTasks (redirectSidebarSearchToMainArea st leaf) =
           pendingTasks st @ ts @ [(clock st + 10, DetachLeaf leaf)] \<and>
         (ts = [] \<or> ts = [(clock st, FinishCreate (freshLeaf st))]))) \<and>
   (throwing st = {} \<longrightarrow> vs_state (viewStateOf st leaf) = JObj kvs \<longrightarrow>
      trace (redirectSidebarSearchToMainArea st leaf) =
        trace st @ [HideContainer leaf, GetLeafTab,
          SetViewState (freshLeaf st)
            \<lparr> vs_type = ''search'', vs_active = True,
              vs_state = JObj (if queryString (JObj kvs) \<noteq> []
                               then setEntry ''query'' (JStr (queryString (JObj kvs))) kvs
                               else kvs) \<rparr>] \<and>
      pendingTasks (redirectSidebarSearchToMainArea st leaf) =
        pendingTasks st @ [(clock st, FinishCreate (freshLeaf st)), (clock st + 10, DetachLeaf leaf)])"
proof (intro conjI impI)
  show "trace (runTask (redirectSidebarSearchToMainArea st leaf) (DetachLeaf leaf)) =
     trace (redirectSidebarSearchToMainArea st leaf) @ [Detach leaf]"
    by (simp add: detachLeaf_def Let_def)
next
  show "traceExtends (redirectSidebarSearchToMainArea st leaf)
          (run (redirectSidebarSearchToMainArea st leaf) stimuli)"
    by (rule run_extends)
next
  assume "CallGetViewState \<in> throwing st"
  then show "trace (redirectSidebarSearchToMainArea st leaf) = trace st @ [HideContainer leaf]"
    and "pendingTasks (redirectSidebarSearchToMainArea st leaf) = pendingTasks st"
    by (simp_all add: redirectSidebarSearchToMainArea_def Let_def)
next
  assume ok: "CallGetViewState \<notin> throwing st"
  define st2 where "st2 = st\<lparr>processedLeaves := insert leaf (processedLeaves st),
                              trace := trace st @ [HideContainer leaf]\<rparr>"
  define s where "s = vs_state (viewStateOf st leaf)"
  have r: "redirectSidebarSearchToMainArea st leaf =
             (createSearchTabInMainArea st2 (queryString s) s)
               \<lparr>pendingTasks := pendingTasks (createSearchTabInMainArea st2 (queryString s) s) @
                   [(clock (createSearchTabInMainArea st2 (queryString s) s) + 10, DetachLeaf leaf)]\<rparr>"
    using ok by (simp add: redirectSidebarSearchToMainArea_def Let_def st2_def s_def)
  obtain evs ts where c:
    "trace (createSearchTabInMainArea st2 (queryString s) s) = trace st2 @ GetLeafTab # evs"
    "evs = [] \<or> (\<exists>vs. evs = [SetViewState (freshLeaf st2) vs])"
    "pendingTasks (createSearchTabInMainArea st2 (queryString s) s) = pendingTasks st2 @ ts"
    "ts = [] \<or> ts = [(clock st2, FinishCreate (freshLeaf st2))]"
    "clock (createSearchTabInMainArea st2 (queryString s) s) = clock st2"
    using create_effects [of st2 "queryString s" s] by blast
  have "trace (redirectSidebarSearchToMainArea st leaf) =
           trace st @ [HideContainer leaf, GetLeafTab] @ evs \<and>
         (evs = [] \<or> (\<exists>vs. evs = [SetViewState (freshLeaf st) vs])) \<and>
         pendingTasks (redirectSidebarSearchToMainArea st leaf) =
           pendingTasks st @ ts @ [(clock st + 10, DetachLeaf leaf)] \<and>
         (ts = [] \<or> ts = [(clock st, FinishCreate (freshLeaf st))])"
    using c by (simp add: r) (simp add: st2_def)
  then show "\<exists>evs ts.
         trace (redirectSidebarSearchToMainArea st leaf) =
           trace st @ [HideContainer leaf, GetLeafTab] @ evs \<and>
         (evs = [] \<or> (\<exists>vs. evs = [SetViewState (freshLeaf st) vs])) \<and>
         pendingTasks (redirectSidebarSearchToMainArea st leaf) =
           pendingTasks st @ ts @ [(clock st + 10, DetachLeaf leaf)] \<and>
         (ts = [] \<or> ts = [(clock st, FinishCreate (freshLeaf st))])"
    by blast
next
  assume t: "throwing st = {}" and o: "vs_state (viewStateOf st leaf) = JObj kvs"
  define st2 where "st2 = st\<lparr>processedLeaves := insert leaf (processedLeaves st),
                              trace := trace st @ [HideContainer leaf]\<rparr>"
  have t2: "throwing st2 = {}" using t by (simp add: st2_def)
  have r: "redirectSidebarSearchToMainArea st leaf =
             (createSearchTabInMainArea st2 (queryString (JObj kvs)) (JObj kvs))
               \<lparr>pendingTasks := pendingTasks (createSearchTabInMainArea st2 (queryString (JObj kvs)) (JObj kvs)) @
                   [(clock (createSearchTabInMainArea st2 (queryString (JObj kvs)) (JObj kvs)) + 10, DetachLeaf leaf)]\<rparr>"
    using t o by (simp add: redirectSidebarSearchToMainArea_def Let_def st2_def)
  have k: "clock (createSearchTabInMainArea st2 (queryString (JObj kvs)) (JObj kvs)) = clock st2"
    using create_effects [of st2 "queryString (JObj kvs)" "JObj kvs"] by blast
  show "trace (redirectSidebarSearchToMainArea st leaf) =
        trace st @ [HideContainer leaf, GetLeafTab,
          SetViewState (freshLeaf st)
            \<lparr> vs_type = ''search'', vs_active = True,
              vs_state = JObj (if queryString (JObj kvs) \<noteq> []
                               then setEntry ''query'' (JStr (queryString (JObj kvs))) kvs
                               else kvs) \<rparr>]"
    by (simp add: r create_success(1) [OF t2 refl]) (simp add: st2_def)
  show "pendingTasks (redirectSidebarSearchToMainArea st leaf) =
        pendingTasks st @ [(clock st, FinishCreate (freshLeaf st)), (clock st + 10, DetachLeaf leaf)]"
    by (simp add: r k create_success(2) [OF t2 refl]) (simp add: st2_def)
qed

theorem redirect_requests_before_detach_witness:
  "throwing sidebarWorld = {} \<and> CallGetViewState \<notin> throwing sidebarWorld \<and>
   vs_state (viewStateOf sidebarWorld 1) = JObj [(''query'', JStr ''todo'')] \<and>
   trace (redirectSidebarSearchToMainArea sidebarWorld 1) =
     [HideContainer 1, GetLeafTab,
      SetViewState 100 \<lparr> vs_type = ''search'', vs_active = True,
                          vs_state = JObj [(''query'', JStr ''todo'')] \<rparr>] \<and>
   pendingTasks (redirectSidebarSearchToMainArea sidebarWorld 1) =
     [(1000000, FinishCreate 100), (1000010, DetachLeaf 1)] \<and>
   trace (run (redirectSidebarSearchToMainArea sidebarWorld 1) [TimePasses 10, TaskRuns 1]) =
     [HideContainer 1, GetLeafTab,
      SetViewState 100 \<lparr> vs_type = ''search'', vs_active = True,
                          vs_state = JObj [(''query'', JStr ''todo'')] \<rparr>,
      Detach 1] \<and>
   CallGetViewState \<in> throwing (sidebarWorld\<lparr>throwing := {CallGetViewState}\<rparr>) \<and>
   trace (redirectSidebarSearchToMainArea (sidebarWorld\<lparr>throwing := {CallGetViewState}\<rparr>) 1) =
     [HideContainer 1]"
proof -
  have concrete:
    "throwing sidebarWorld = {} \<and> CallGetViewState \<notin> throwing sidebarWorld \<and>
     vs_state (viewStateOf sidebarWorld 1) = JObj [(''query'', JStr ''todo'')] \<and>
     trace (redirectSidebarSearchToMainArea sidebarWorld 1) =
       [HideContainer 1, GetLeafTab,
        SetViewState 100 \<lparr> vs_type = ''search'', vs_active = True,
                            vs_state = JObj [(''query'', JStr ''todo'')] \<rparr>] \<and>
     pendingTasks (redirectSidebarSearchToMainArea sidebarWorld 1) =
       [(1000000, FinishCreate 100), (1000010, DetachLeaf 1)] \<and>
     trace (run (redirectSidebarSearchToMainArea sidebarWorld 1) [TimePasses 10, TaskRuns 1]) =
       [HideContainer 1, GetLeafTab,
        SetViewState 100 \<lparr> vs_type = ''search'', vs_active = True,
                            vs_state = JObj [(''query'', JStr ''todo'')] \<rparr>,
        Detach 1] \<and>
     CallGetViewState \<in> throwing (sidebarWorld\<lparr>throwing := {CallGetViewState}\<rparr>) \<and>
     trace (redirectSidebarSearchToMainArea (sidebarWorld\<lparr>throwing := {CallGetViewState}\<rparr>) 1) =
       [HideContainer 1]"
    by code_simp
  show ?thesis
    using redirect_requests_before_detach
            [where st = sidebarWorld and leaf = 1 and kvs = "[(''query'', JStr ''todo'')]"
               and stimuli = "[TimePasses 10, TaskRuns 1]"]
          redirect_requests_before_detach
            [where st = "sidebarWorld\<lparr>throwing := {CallGetViewState}\<rparr>" and leaf = 1
               and kvs = "[]" and stimuli = "[]"]
          concrete
    by blast
qed

section \<open>Teardown\<close>

lemma clearIntervals_fold:
  "windowIntervals (foldl clearIntervalById st ids) =
     filter (\<lambda>t. fst t \<notin> set ids) (windowIntervals st) \<and>
   setViewStateOf (foldl clearIntervalById st ids) = setViewStateOf st \<and>
   viewStateMonitored (foldl clearIntervalById st ids) = viewStateMonitored st \<and>
   detectionIntervalId (foldl clearIntervalById st ids) = detectionIntervalId st \<and>
   originalExecuteCommand (foldl clearIntervalById st ids) = originalExecuteCommand st \<and>
   executeCommand (foldl clearIntervalById st ids) = executeCommand st \<and>
   commandsApi (foldl clearIntervalById st ids) = commandsApi st"
proof (induction ids arbitrary: st)
  case Nil
  then show ?case by simp
next
  case (Cons i ids)
  show ?case
    by (simp add: Cons.IH) (auto simp: clearIntervalById_def intro: filter_cong)
qed

lemma onunload_keeps_setters:
  "setViewStateOf (onunload st) = setViewStateOf st \<and>
   viewStateMonitored (onunload st) = viewStateMonitored st"
  by (simp add: onunload_def Let_def clearIntervals_fold clearIntervalById_def
        split: option.splits)

lemma onunload_reverses_timers_and_command:
  "(\<forall>t \<in> set (windowIntervals (onunload st)). fst t \<notin> set (allIntervalIds st)) \<and>
   (commandsApi st \<longrightarrow> originalExecuteCommand st = Some original \<longrightarrow>
      executeCommand (onunload st) = original)"
  by (auto simp add: onunload_def Let_def clearIntervals_fold clearIntervalById_def
        split: option.splits)

text \<open>
  C4 on the code. After \<open>onload\<close> with a peripheral search leaf, \<open>onunload\<close> clears the
  polling timer and puts the host's command dispatcher back, but leaf 1 keeps the hooked
  \<open>setViewState\<close>: three seconds later a call that sets a search view on it is still
  intercepted (a tab is requested in the main area and the leaf's own view state is not
  set). And when \<open>setupCommandInterception\<close> has run twice, \<open>onunload\<close> puts the hook
  itself back as the dispatcher.
\<close>

theorem onunload_leaves_setter_hooked:
  "windowIntervals loadedSidebarWorld = [(1, 1)] \<and>
   executeCommand loadedSidebarWorld = HookedExecuteCommand \<and>
   setViewStateOf loadedSidebarWorld 1 = HookedSetViewState \<and>
   windowIntervals unloadedWorld = [] \<and>
   executeCommand unloadedWorld = HostExecuteCommand \<and>
   setViewStateOf unloadedWorld 1 = HookedSetViewState \<and>
   trace afterUnloadWorld =
     [SetInterval 1 1, ClearInterval 1, GetLeafTab,
      SetViewState 100 \<lparr> vs_type = ''search'', vs_active = True,
                          vs_state = JObj [(''query'', JStr ''later'')] \<rparr>] \<and>
   viewStateOf afterUnloadWorld 1 = viewStateOf loadedSidebarWorld 1 \<and>
   originalExecuteCommand retoggledWorld = Some HookedExecuteCommand \<and>
   executeCommand (onunload retoggledWorld) = HookedExecuteCommand"
  by code_simp

section \<open>Properties of the polling monitor\<close>

lemma monitor_without_baseline:
  assumes "leafBaselineState st l = None"
  shows "leafBaselineState (monitor st l) l = None \<and>
         settings (monitor st l) = settings st \<and>
         dataFile (monitor st l) = dataFile st \<and>
         count_list (trace (monitor st l)) SaveData = count_list (trace st) SaveData"
proof (cases "vs_type (viewStateOf st l) = ''search''")
  case True
  then have "monitor st l = st"
    using assms by (simp add: monitor_def Let_def)
  with assms show ?thesis by simp
next
  case False
  then have "monitor st l = cleanupLeafTracking st l" by (simp add: monitor_def)
  then show ?thesis
    by (simp add: cleanupLeafTracking_def clearIntervalById_def Let_def split: option.splits)
qed

lemma userStep_without_baseline:
  assumes "leafBaselineState st l = None"
  shows "leafBaselineState (userStep l st a) l = None \<and>
         settings (userStep l st a) = settings st \<and>
         dataFile (userStep l st a) = dataFile st \<and>
         count_list (trace (userStep l st a)) SaveData = count_list (trace st) SaveData"
proof (cases a)
  case (Wait d)
  with assms show ?thesis by simp
next
  case (Edit s)
  with assms show ?thesis by simp
next
  case Poll
  with monitor_without_baseline [OF assms] show ?thesis by simp
qed

lemma userRun_without_baseline:
  "leafBaselineState st l = None \<Longrightarrow>
   leafBaselineState (userRun l st actions) l = None \<and>
   settings (userRun l st actions) = settings st \<and>
   dataFile (userRun l st actions) = dataFile st \<and>
   count_list (trace (userRun l st actions)) SaveData = count_list (trace st) SaveData"
  unfolding userRun_def
proof (induction actions arbitrary: st)
  case Nil
  then show ?case by simp
next
  case (Cons a actions)
  have s: "leafBaselineState (userStep l st a) l = None"
    using userStep_without_baseline [OF Cons.prems] by blast
  show ?case
    using Cons.IH [OF s] userStep_without_baseline [OF Cons.prems, of a] by simp
qed

text \<open>
  C10 (amended). When a leaf without a baseline is processed while nothing is
  remembered, the processing records no baseline for it. From then on, however long the
  user waits, whatever the leaf's view reports and however often its monitor runs, the
  leaf has no baseline, the settings are those from before the processing, and nothing
  is written to storage. This holds as long as the leaf is not processed again.
\<close>

theorem no_baseline_no_autosave:
  "\<not> truthy (lastSearchState (settings st)) \<longrightarrow> leafBaselineState st leaf = None \<longrightarrow>
     leafBaselineState (processNewSearchLeaf st leaf) leaf = None \<and>
     leafBaselineState (userRun leaf (processNewSearchLeaf st leaf) actions) leaf = None \<and>
     settings (userRun leaf (processNewSearchLeaf st leaf) actions) = settings st \<and>
     dataFile (userRun leaf (processNewSearchLeaf st leaf) actions)
       = dataFile (processNewSearchLeaf st leaf) \<and>
     count_list (trace (userRun leaf (processNewSearchLeaf st leaf) actions)) SaveData
       = count_list (trace (processNewSearchLeaf st leaf)) SaveData"
proof (intro impI)
  assume n: "\<not> truthy (lastSearchState (settings st))" and b: "leafBaselineState st leaf = None"
  have p: "leafBaselineState (processNewSearchLeaf st leaf) leaf = None"
    using b by (simp add: processNew_no_baseline [OF n])
  show "leafBaselineState (processNewSearchLeaf st leaf) leaf = None \<and>
     leafBaselineState (userRun leaf (processNewSearchLeaf st leaf) actions) leaf = None \<and>
     settings (userRun leaf (processNewSearchLeaf st leaf) actions) = settings st \<and>
     dataFile (userRun leaf (processNewSearchLeaf st leaf) actions)
       = dataFile (processNewSearchLeaf st leaf) \<and>
     count_list (trace (userRun leaf (processNewSearchLeaf st leaf) actions)) SaveData
       = count_list (trace (processNewSearchLeaf st leaf)) SaveData"
    using p userRun_without_baseline [OF p, of actions]
    by (simp add: processNew_unchanged)
qed

theorem no_baseline_no_autosave_witness:
  "\<not> truthy (lastSearchState (settings restoredLeafWorld)) \<and>
   leafBaselineState restoredLeafWorld 2 = None \<and>
   windowIntervals (processNewSearchLeaf restoredLeafWorld 2) = [(1, 1), (2, 2)] \<and>
   leafBaselineState
     (userRun 2 (processNewSearchLeaf restoredLeafWorld 2)
        [Wait 3000, Edit (JObj [(''query'', JStr ''done''), (''matchingCase'', JBool True)]), Poll])
     2 = None \<and>
   lastSearchState (settings
     (userRun 2 (processNewSearchLeaf restoredLeafWorld 2)
        [Wait 3000, Edit (JObj [(''query'', JStr ''done''), (''matchingCase'', JBool True)]), Poll]))
     = JNull \<and>
   dataFile
     (userRun 2 (processNewSearchLeaf restoredLeafWorld 2)
        [Wait 3000, Edit (JObj [(''query'', JStr ''done''), (''matchingCase'', JBool True)]), Poll])
     = None"
proof -
  have concrete:
    "\<not> truthy (lastSearchState (settings restoredLeafWorld)) \<and>
     leafBaselineState restoredLeafWorld 2 = None \<and>
     windowIntervals (processNewSearchLeaf restoredLeafWorld 2) = [(1, 1), (2, 2)] \<and>
     leafBaselineState
       (userRun 2 (processNewSearchLeaf restoredLeafWorld 2)
          [Wait 3000, Edit (JObj [(''query'', JStr ''done''), (''matchingCase'', JBool True)]), Poll])
       2 = None \<and>
     lastSearchState (settings
       (userRun 2 (processNewSearchLeaf restoredLeafWorld 2)
          [Wait 3000, Edit (JObj [(''query'', JStr ''done''), (''matchingCase'', JBool True)]), Poll]))
       = JNull \<and>
     dataFile
       (userRun 2 (processNewSearchLeaf restoredLeafWorld 2)
          [Wait 3000, Edit (JObj [(''query'', JStr ''done''), (''matchingCase'', JBool True)]), Poll])
       = None"
    by code_simp
  show ?thesis
    using no_baseline_no_autosave
            [of restoredLeafWorld 2
                "[Wait 3000, Edit (JObj [(''query'', JStr ''done''), (''matchingCase'', JBool True)]), Poll]"]
          concrete
    by blast
qed

text \<open>
  C10 as stated fails when the leaf is processed a second time. Leaf 2 is first
  processed during startup with nothing remembered. Within the grace period the user
  saves the current state and runs the search command; the hook deletes the marks of
  both peripheral leaves, the pass redirects leaf 1 only, and the next layout change
  processes leaf 2 again, now with a remembered state: a baseline is recorded. Three
  seconds later an edit in leaf 2 is persisted by its monitor.
\<close>

theorem reprocessed_leaf_counterexample:
  "lastSearchState (settings (onload twoSidebarWorld)) = JNull \<and>
   2 \<in> processedLeaves (onload twoSidebarWorld) \<and>
   leafCreationTime (onload twoSidebarWorld) 2 = Some 1000000 \<and>
   leafBaselineState (onload twoSidebarWorld) 2 = None \<and>
   isInInitializationGracePeriod reprocessedWorld \<and>
   leafCreationTime reprocessedWorld 2 = Some 1000200 \<and>
   leafBaselineState reprocessedWorld 2 = Some ''{}'' \<and>
   lastSearchState (settings reprocessedWorld) = JObj [] \<and>
   lastSearchState (settings editedWorld) = JObj [(''matchingCase'', JBool True)] \<and>
   dataFile editedWorld =
     Some [(''lastSearchState'', JObj [(''matchingCase'', JBool True)]),
           (''rememberQuery'', JBool False),
           (''openBookmarksInMainArea'', JBool True),
           (''clearSidebarSearchOnStartup'', JBool False),
           (''debugMode'', JBool False),
           (''autoPinSearchTab'', JBool True)] \<and>
   leafBaselineState editedWorld 2 = Some (JSON_stringify (JObj [(''matchingCase'', JBool True)]))"
  by code_simp

end
